theory Spec2Isabelle
  imports Complex_Main
begin

section \<open>cloudscraper: the transport adapter and the session orchestrator\<close>

text \<open>
  A shallow embedding of \<^verbatim>\<open>src/cloudscraper/__init__.py\<close>: the source-address check of
  \<^verbatim>\<open>CipherSuiteAdapter.__init__\<close>, and of \<^verbatim>\<open>CloudScraper\<close> the construction of the
  counters, \<^verbatim>\<open>simpleException\<close>, \<^verbatim>\<open>decodeBrotli\<close>, \<^verbatim>\<open>request\<close>,
  \<^verbatim>\<open>_clear_cloudflare_cookies\<close> and \<^verbatim>\<open>_apply_request_throttling\<close>.
  Mutation of \<^verbatim>\<open>self\<close> is explicit state passing over the record \<open>session\<close>; a raised
  exception is the \<open>Inl\<close> of a sum; the busy-wait of the throttle, which need not
  return, yields an \<open>option\<close>.
\<close>

subsection \<open>Python values and exceptions\<close>

text \<open>The values a keyword argument such as \<^verbatim>\<open>source_address\<close> can hold.\<close>

datatype py_value =
    PyNone
  | PyBool bool
  | PyInt int
  | PyStr string
  | PyTuple "py_value list"
  | PyList "py_value list"

text \<open>Python's truth value: \<^verbatim>\<open>None\<close>, \<^verbatim>\<open>False\<close>, zero and the empty containers are false.\<close>

fun truthy :: "py_value \<Rightarrow> bool" where
  "truthy PyNone = False"
| "truthy (PyBool b) = b"
| "truthy (PyInt i) = (i \<noteq> 0)"
| "truthy (PyStr s) = (s \<noteq> [])"
| "truthy (PyTuple vs) = (vs \<noteq> [])"
| "truthy (PyList vs) = (vs \<noteq> [])"

text \<open>
  The exceptions the file raises, catches or lets through.
  \<^verbatim>\<open>requests.exceptions.ProxyError\<close> is a subclass of
  \<^verbatim>\<open>requests.exceptions.ConnectionError\<close>; \<open>CloudflareLoopProtection n\<close> carries the
  count \<open>n\<close> its message prints (\<^verbatim>\<open>Tried n times\<close>); \<open>OtherError\<close> is any exception
  the file names nowhere.
\<close>

datatype exn =
    TypeError string
  | KeyError
  | ProxyError
  | ConnectionError
  | CloudflareLoopProtection int
  | OtherError string

subsection \<open>The transport adapter: \<^verbatim>\<open>CipherSuiteAdapter.__init__\<close>, lines 64 and 68-75\<close>

text \<open>
  \<^verbatim>\<open>
  self.source_address = kwargs.pop('source_address', None)
  if self.source_address:
      if isinstance(self.source_address, str):
          self.source_address = (self.source_address, 0)
      if not isinstance(self.source_address, tuple):
          raise TypeError("source_address must be IP address string or (ip, port) tuple")
  \<close>
  The result is the attribute \<^verbatim>\<open>self.source_address\<close> the constructor goes on with, or
  the \<^verbatim>\<open>TypeError\<close>. The rest of the constructor (the TLS context) does not read the
  attribute.
\<close>

text \<open>\<^verbatim>\<open>isinstance(v, str)\<close> and \<^verbatim>\<open>isinstance(v, tuple)\<close>.\<close>

fun isinstance_str :: "py_value \<Rightarrow> bool" where
  "isinstance_str (PyStr s) = True"
| "isinstance_str _ = False"

fun isinstance_tuple :: "py_value \<Rightarrow> bool" where
  "isinstance_tuple (PyTuple vs) = True"
| "isinstance_tuple _ = False"

definition source_address_message :: string where
  "source_address_message = ''source_address must be IP address string or (ip, port) tuple''"

definition CipherSuiteAdapter_source_address :: "py_value \<Rightarrow> exn + py_value" where
  "CipherSuiteAdapter_source_address source_address =
     (if truthy source_address then
        (let sa = (if isinstance_str source_address
                   then PyTuple [source_address, PyInt 0]
                   else source_address)
         in if \<not> isinstance_tuple sa
            then Inl (TypeError source_address_message)
            else Inr sa)
      else Inr source_address)"

subsection \<open>The cookie jar\<close>

text \<open>
  A cookie of the jar, by the three keys \<^verbatim>\<open>http.cookiejar\<close> stores it under (domain,
  path, name) and its value. The jar is the list of its cookies, in iteration order.
\<close>

record cookie =
  ck_domain :: string
  ck_path :: string
  ck_name :: string
  ck_value :: string

type_synonym cookie_jar = "cookie list"

text \<open>
  \<^verbatim>\<open>RequestsCookieJar.list_domains()\<close>: the domains of the cookies, each once, in the order
  of first appearance.
\<close>

fun list_domains_from :: "string list \<Rightarrow> cookie_jar \<Rightarrow> string list" where
  "list_domains_from ds [] = ds"
| "list_domains_from ds (c # cs) =
     list_domains_from (if ck_domain c \<in> set ds then ds else ds @ [ck_domain c]) cs"

definition list_domains :: "cookie_jar \<Rightarrow> string list" where
  "list_domains jar = list_domains_from [] jar"

text \<open>
  \<^verbatim>\<open>CookieJar.clear(domain, path, name)\<close> with all three arguments: deletes the cookie
  stored under exactly these keys, and raises \<^verbatim>\<open>KeyError\<close> when there is none.
\<close>

definition cookie_at :: "string \<Rightarrow> string \<Rightarrow> string \<Rightarrow> cookie \<Rightarrow> bool" where
  "cookie_at d p n c \<longleftrightarrow> ck_domain c = d \<and> ck_path c = p \<and> ck_name c = n"

definition jar_clear :: "string \<Rightarrow> string \<Rightarrow> string \<Rightarrow> cookie_jar \<Rightarrow> exn + cookie_jar" where
  "jar_clear d p n jar =
     (if list_ex (cookie_at d p n) jar
      then Inr (filter (\<lambda>c. \<not> cookie_at d p n c) jar)
      else Inl KeyError)"

subsection \<open>The session\<close>

text \<open>
  A proxies dict (URL scheme to proxy URL), written as its association list in key
  order, so that equality of the lists is equality of the dicts.
\<close>

type_synonym proxy_dict = "(string \<times> string) list"

text \<open>
  Modelled from the spec: the Proxy Manager (\<^verbatim>\<open>proxy_manager.py\<close>), of which the source
  has only the call sites. It "owns a set of candidate proxy endpoints, a rotation
  strategy, and a temporary-ban ledger; exposes \<^verbatim>\<open>nextProxy()\<close> and feedback hooks
  \<^verbatim>\<open>reportSuccess(proxy)\<close> / \<^verbatim>\<open>reportFailure(proxy)\<close>". Its state is the configured
  endpoints and the calls it has received so far, in order; the proxy it hands out is a
  function of that state, a parameter of the model (\<open>get_proxy\<close> below).
\<close>

datatype pm_event = GetProxy | ReportSuccess proxy_dict | ReportFailure proxy_dict

record proxy_manager =
  pm_proxies :: "string list"
  pm_history :: "pm_event list"

definition report_success :: "proxy_dict \<Rightarrow> proxy_manager \<Rightarrow> proxy_manager" where
  "report_success p pm = pm\<lparr>pm_history := pm_history pm @ [ReportSuccess p]\<rparr>"

definition report_failure :: "proxy_dict \<Rightarrow> proxy_manager \<Rightarrow> proxy_manager" where
  "report_failure p pm = pm\<lparr>pm_history := pm_history pm @ [ReportFailure p]\<rparr>"

text \<open>
  The attributes of \<^verbatim>\<open>self\<close> that the modelled methods read or write, under the names
  of the source (\<open>solveDepthCnt\<close> is \<^verbatim>\<open>_solveDepthCnt\<close>, \<open>retry_count_403\<close> is
  \<^verbatim>\<open>_403_retry_count\<close>, \<open>in_403_retry\<close> is \<^verbatim>\<open>hasattr(self, '_in_403_retry')\<close>, and
  \<open>proxy_manager = None\<close> is \<^verbatim>\<open>not hasattr(self, 'proxy_manager')\<close>), and of the world
  around it the clock that \<^verbatim>\<open>time.time()\<close> reads and \<^verbatim>\<open>sys.tracebacklimit\<close>. Python's
  integers are unbounded (\<open>int\<close>); times are in seconds. What \<^verbatim>\<open>print\<close> writes under
  \<^verbatim>\<open>debug\<close> is not modelled.
\<close>

record session =
  debug :: bool
  disableCloudflareV1 :: bool
  disableCloudflareV2 :: bool
  disableCloudflareV3 :: bool
  disableTurnstile :: bool
  allow_brotli :: bool
  solveDepthCnt :: int
  solveDepth :: int
  request_count :: int
  retry_count_403 :: int
  in_403_retry :: bool
  last_request_time :: real
  min_request_interval :: real
  max_concurrent_requests :: int
  current_concurrent_requests :: int
  proxy_manager :: "proxy_manager option"
  enable_stealth :: bool
  proxies :: proxy_dict
  cookies :: cookie_jar
  clock :: real
  tracebacklimit :: "int option"

text \<open>
  The keyword arguments of a call of \<^verbatim>\<open>request\<close>: the private flag
  \<^verbatim>\<open>_skip_throttle\<close> and \<^verbatim>\<open>proxies\<close> (\<open>None\<close> when the key is absent or holds
  \<^verbatim>\<open>None\<close>), and all the others, which \<^verbatim>\<open>request\<close> only passes on.
\<close>

record kwargs =
  kw_skip_throttle :: "bool option"
  kw_proxies :: "proxy_dict option"
  kw_others :: "(string \<times> string) list"

text \<open>The truth value of \<^verbatim>\<open>kwargs.get('proxies')\<close>.\<close>

fun proxies_truthy :: "proxy_dict option \<Rightarrow> bool" where
  "proxies_truthy None = False"
| "proxies_truthy (Some p) = (p \<noteq> [])"

text \<open>The attributes of a response that the file reads.\<close>

record response =
  status_code :: int
  is_redirect :: bool
  content_encoding :: "string option"
  content :: string

text \<open>An action on the session returns a value or raises, and leaves a new state.\<close>

type_synonym 'a action = "session \<Rightarrow> (exn + 'a) \<times> session"

text \<open>
  What \<^verbatim>\<open>request\<close> calls and the file does not define. The hooks are the callables the
  caller configured (\<open>None\<close> when unset); they receive \<^verbatim>\<open>self\<close>, as the dispatch
  \<^verbatim>\<open>perform_request\<close> and the solvers do, which re-enter \<^verbatim>\<open>request\<close>, so each is an
  action on the whole session.

  Modelled from the spec: the classifiers and solvers of the five challenge variants
  (\<^verbatim>\<open>turnstile.py\<close>, \<^verbatim>\<open>cloudflare_v3.py\<close>, \<^verbatim>\<open>cloudflare_v2.py\<close>, \<^verbatim>\<open>cloudflare.py\<close>), each
  exposing "\<^verbatim>\<open>isChallenge(response) -> bool\<close> and \<^verbatim>\<open>solve(response, context)\<close>"; the
  Stealth Policy (\<^verbatim>\<open>stealth.py\<close>), "\<^verbatim>\<open>apply(method, url, kwargs) -> kwargs'\<close>", which may
  also delay; and the choice \<^verbatim>\<open>get_proxy()\<close> of the Proxy Manager. \<open>urllib3_before_1_25_1\<close>
  is the comparison \<^verbatim>\<open>requests.packages.urllib3.__version__ < '1.25.1'\<close> and
  \<open>brotli_decompress\<close> is \<^verbatim>\<open>brotli.decompress\<close>.
\<close>

record env =
  requestPreHook ::
    "(string \<Rightarrow> string \<Rightarrow> string list \<Rightarrow> kwargs \<Rightarrow>
        (string \<times> string \<times> string list \<times> kwargs) action) option"
  requestPostHook :: "(response \<Rightarrow> response action) option"
  perform_request :: "string \<Rightarrow> string \<Rightarrow> string list \<Rightarrow> kwargs \<Rightarrow> response action"
  urllib3_before_1_25_1 :: bool
  brotli_decompress :: "string \<Rightarrow> exn + string"
  get_proxy :: "proxy_manager \<Rightarrow> proxy_dict option"
  apply_stealth_techniques :: "string \<Rightarrow> string \<Rightarrow> kwargs \<Rightarrow> kwargs action"
  is_Turnstile_Challenge :: "response \<Rightarrow> bool"
  is_V3_Challenge :: "response \<Rightarrow> bool"
  is_V2_Captcha_Challenge :: "response \<Rightarrow> bool"
  is_V2_Challenge :: "response \<Rightarrow> bool"
  is_Challenge_Request :: "response \<Rightarrow> bool"
  handle_Turnstile_Challenge :: "response \<Rightarrow> kwargs \<Rightarrow> response action"
  handle_V3_Challenge :: "response \<Rightarrow> kwargs \<Rightarrow> response action"
  handle_V2_Captcha_Challenge :: "response \<Rightarrow> kwargs \<Rightarrow> response action"
  handle_V2_Challenge :: "response \<Rightarrow> kwargs \<Rightarrow> response action"
  Challenge_Response :: "response \<Rightarrow> kwargs \<Rightarrow> response action"

subsection \<open>\<^verbatim>\<open>simpleException\<close> (lines 255-258) and \<^verbatim>\<open>decodeBrotli\<close> (lines 275-287)\<close>

definition simpleException :: "exn \<Rightarrow> session \<Rightarrow> (exn + 'a) \<times> session" where
  "simpleException exception s =
     (Inl exception, s\<lparr>solveDepthCnt := 0, tracebacklimit := Some 0\<rparr>)"

definition decodeBrotli :: "env \<Rightarrow> session \<Rightarrow> response \<Rightarrow> exn + response" where
  "decodeBrotli E s resp =
     (if urllib3_before_1_25_1 E \<and> content_encoding resp = Some ''br'' then
        (if allow_brotli s \<and> content resp \<noteq> [] then
           (case brotli_decompress E (content resp) of
              Inl e \<Rightarrow> Inl e
            | Inr c \<Rightarrow> Inr (resp\<lparr>content := c\<rparr>))
         else Inr resp)
      else Inr resp)"

subsection \<open>\<^verbatim>\<open>_clear_cloudflare_cookies\<close> (lines 454-469)\<close>

definition cf_cookie_names :: "string list" where
  "cf_cookie_names =
     [''cf_clearance'', ''cf_chl_2'', ''cf_chl_prog'', ''cf_chl_rc_ni'', ''cf_turnstile'', ''__cf_bm'']"

text \<open>
  The inner loop, over the domains listed when it starts: \<^verbatim>\<open>clear(domain, '/', name)\<close>,
  whose \<^verbatim>\<open>KeyError\<close> the bare \<^verbatim>\<open>except\<close> swallows.
\<close>

fun clear_in_domains :: "string \<Rightarrow> string list \<Rightarrow> cookie_jar \<Rightarrow> cookie_jar" where
  "clear_in_domains cookie_name [] jar = jar"
| "clear_in_domains cookie_name (d # ds) jar =
     clear_in_domains cookie_name ds
       (case jar_clear d ''/'' cookie_name jar of Inl e \<Rightarrow> jar | Inr jar' \<Rightarrow> jar')"

text \<open>The outer loop, over the names; the domains are listed anew for each name.\<close>

fun clear_names :: "string list \<Rightarrow> cookie_jar \<Rightarrow> cookie_jar" where
  "clear_names [] jar = jar"
| "clear_names (cookie_name # names) jar =
     clear_names names (clear_in_domains cookie_name (list_domains jar) jar)"

definition clear_cloudflare_cookies :: "session \<Rightarrow> session" where
  "clear_cloudflare_cookies s = s\<lparr>cookies := clear_names cf_cookie_names (cookies s)\<rparr>"

subsection \<open>\<^verbatim>\<open>_apply_request_throttling\<close> (lines 471-491)\<close>

text \<open>
  \<^verbatim>\<open>time.sleep(d)\<close> on an ideal clock: the call takes exactly \<open>d\<close> seconds, and every
  other statement takes none.
\<close>

definition time_sleep :: "real \<Rightarrow> session \<Rightarrow> session" where
  "time_sleep d s = s\<lparr>clock := clock s + d\<rparr>"

text \<open>
  The busy-wait of lines 486-489. Nothing in the loop changes the two counters, so on its
  own (no other thread) the loop returns at once or never; not returning is \<open>None\<close>.
\<close>

partial_function (option) wait_concurrent :: "session \<Rightarrow> session option" where
  "wait_concurrent s =
     (if max_concurrent_requests s \<le> current_concurrent_requests s
      then wait_concurrent (time_sleep (1 / 10) s)
      else Some s)"

definition apply_request_throttling :: "session \<Rightarrow> session option" where
  "apply_request_throttling s =
     (let current_time = clock s;
          time_since_last_request = current_time - last_request_time s;
          s1 = (if time_since_last_request < min_request_interval s
                then time_sleep (min_request_interval s - time_since_last_request) s
                else s)
      in case wait_concurrent s1 of
           None \<Rightarrow> None
         | Some s2 \<Rightarrow> Some (s2\<lparr>last_request_time := clock s2\<rparr>))"

subsection \<open>\<^verbatim>\<open>CloudScraper.request\<close> (lines 293-387)\<close>

text \<open>
  Lines 309-313, "Handle proxies": a proxy of the manager when the caller gave none and
  the manager has endpoints; otherwise the caller's proxies, when there are some and
  they differ from the session's, become the session's.
\<close>

definition request_own_proxies :: "kwargs \<Rightarrow> session \<Rightarrow> session" where
  "request_own_proxies kw s =
     (case kw_proxies kw of
        Some p \<Rightarrow> if p \<noteq> [] \<and> p \<noteq> proxies s then s\<lparr>proxies := p\<rparr> else s
      | None \<Rightarrow> s)"

definition request_proxies :: "env \<Rightarrow> kwargs \<Rightarrow> session \<Rightarrow> kwargs \<times> session" where
  "request_proxies E kw s =
     (case proxy_manager s of
        Some pm \<Rightarrow>
          if \<not> proxies_truthy (kw_proxies kw) \<and> pm_proxies pm \<noteq> [] then
            (kw\<lparr>kw_proxies := get_proxy E pm\<rparr>,
             s\<lparr>proxy_manager := Some (pm\<lparr>pm_history := pm_history pm @ [GetProxy]\<rparr>)\<rparr>)
          else (kw, request_own_proxies kw s)
      | None \<Rightarrow> (kw, request_own_proxies kw s))"

text \<open>Lines 315-317, "Apply stealth mode".\<close>

definition request_stealth :: "env \<Rightarrow> string \<Rightarrow> string \<Rightarrow> kwargs \<Rightarrow> kwargs action" where
  "request_stealth E method url kw s =
     (if enable_stealth s then apply_stealth_techniques E method url kw s else (Inr kw, s))"

text \<open>Lines 319-321, "Track request metrics".\<close>

definition request_track :: "session \<Rightarrow> session" where
  "request_track s =
     s\<lparr>request_count := request_count s + 1,
       current_concurrent_requests := current_concurrent_requests s + 1\<rparr>"

text \<open>Lines 324-326, the pre-hook.\<close>

definition request_prehook ::
  "env \<Rightarrow> string \<Rightarrow> string \<Rightarrow> string list \<Rightarrow> kwargs \<Rightarrow>
     (string \<times> string \<times> string list \<times> kwargs) action" where
  "request_prehook E method url args kw s =
     (case requestPreHook E of
        None \<Rightarrow> (Inr (method, url, args, kw), s)
      | Some hook \<Rightarrow> hook method url args kw s)"

text \<open>
  Lines 331-332 and 334-335: feedback to the Proxy Manager, when
  \<^verbatim>\<open>kwargs.get('proxies')\<close> is true and the session has a manager.
\<close>

definition proxy_feedback ::
  "(proxy_dict \<Rightarrow> proxy_manager \<Rightarrow> proxy_manager) \<Rightarrow> kwargs \<Rightarrow> session \<Rightarrow> session" where
  "proxy_feedback report kw s =
     (if proxies_truthy (kw_proxies kw) then
        (case proxy_manager s of
           Some pm \<Rightarrow> s\<lparr>proxy_manager := Some (report (the (kw_proxies kw)) pm)\<rparr>
         | None \<Rightarrow> s)
      else s)"

text \<open>Lines 330-332, the body of the inner \<^verbatim>\<open>try\<close>.\<close>

definition request_perform ::
  "env \<Rightarrow> string \<Rightarrow> string \<Rightarrow> string list \<Rightarrow> kwargs \<Rightarrow> response action" where
  "request_perform E method url args kw s =
     (case perform_request E method url args kw s of
        (Inl e, s1) \<Rightarrow> (Inl e, s1)
      | (Inr raw, s1) \<Rightarrow>
          (case decodeBrotli E s1 raw of
             Inl e \<Rightarrow> (Inl e, s1)
           | Inr resp \<Rightarrow> (Inr resp, proxy_feedback report_success kw s1)))"

text \<open>
  Lines 329-336, the inner \<^verbatim>\<open>try\<close> with its handler
  \<^verbatim>\<open>except (requests.exceptions.ProxyError, requests.exceptions.ConnectionError)\<close>, which
  ends in a bare \<^verbatim>\<open>raise\<close>.
\<close>

fun is_proxy_or_connection_error :: "exn \<Rightarrow> bool" where
  "is_proxy_or_connection_error ProxyError = True"
| "is_proxy_or_connection_error ConnectionError = True"
| "is_proxy_or_connection_error _ = False"

definition request_dispatch ::
  "env \<Rightarrow> string \<Rightarrow> string \<Rightarrow> string list \<Rightarrow> kwargs \<Rightarrow> response action" where
  "request_dispatch E method url args kw s =
     (case request_perform E method url args kw s of
        (Inl e, s1) \<Rightarrow>
          if is_proxy_or_connection_error e
          then (Inl e, proxy_feedback report_failure kw s1)
          else (Inl e, s1)
      | (Inr resp, s1) \<Rightarrow> (Inr resp, s1))"

text \<open>Lines 338-342, the post-hook, whose result replaces the response.\<close>

definition request_posthook :: "env \<Rightarrow> response \<Rightarrow> response action" where
  "request_posthook E resp s =
     (case requestPostHook E of
        None \<Rightarrow> (Inr resp, s)
      | Some hook \<Rightarrow> hook resp s)"

text \<open>Lines 376-382, "Reset depth on success", and the return of the response.\<close>

definition request_passthrough :: "response \<Rightarrow> response action" where
  "request_passthrough resp s =
     (Inr resp,
      if \<not> is_redirect resp \<and> status_code resp \<notin> {429, 503} then
        (let s1 = s\<lparr>solveDepthCnt := 0\<rparr>
         in if status_code resp = 200 \<and> \<not> in_403_retry s1
            then s1\<lparr>retry_count_403 := 0\<rparr>
            else s1)
      else s)"

text \<open>
  Lines 344-382: the loop protection, then the chain of the five classifiers, each with
  its solver, then the pass-through.
\<close>

definition request_challenges :: "env \<Rightarrow> response \<Rightarrow> kwargs \<Rightarrow> response action" where
  "request_challenges E resp kw s =
     (if solveDepth s \<le> solveDepthCnt s then
        simpleException (CloudflareLoopProtection (solveDepthCnt s)) s
      else if \<not> disableTurnstile s \<and> is_Turnstile_Challenge E resp then
        handle_Turnstile_Challenge E resp kw (s\<lparr>solveDepthCnt := solveDepthCnt s + 1\<rparr>)
      else if \<not> disableCloudflareV3 s \<and> is_V3_Challenge E resp then
        handle_V3_Challenge E resp kw (s\<lparr>solveDepthCnt := solveDepthCnt s + 1\<rparr>)
      else if \<not> disableCloudflareV2 s \<and> is_V2_Captcha_Challenge E resp then
        handle_V2_Captcha_Challenge E resp kw (s\<lparr>solveDepthCnt := solveDepthCnt s + 1\<rparr>)
      else if \<not> disableCloudflareV2 s \<and> is_V2_Challenge E resp then
        handle_V2_Challenge E resp kw (s\<lparr>solveDepthCnt := solveDepthCnt s + 1\<rparr>)
      else if \<not> disableCloudflareV1 s \<and> is_Challenge_Request E resp then
        Challenge_Response E resp kw (s\<lparr>solveDepthCnt := solveDepthCnt s + 1\<rparr>)
      else request_passthrough resp s)"

text \<open>
  Lines 324-342: pre-hook, dispatch and post-hook. The result is the response that is
  classified, with the keyword arguments the pre-hook left.
\<close>

definition request_response ::
  "env \<Rightarrow> string \<Rightarrow> string \<Rightarrow> string list \<Rightarrow> kwargs \<Rightarrow> (response \<times> kwargs) action" where
  "request_response E method url args kw s =
     (case request_prehook E method url args kw s of
        (Inl e, s1) \<Rightarrow> (Inl e, s1)
      | (Inr (method', url', args', kw'), s1) \<Rightarrow>
          (case request_dispatch E method' url' args' kw' s1 of
             (Inl e, s2) \<Rightarrow> (Inl e, s2)
           | (Inr resp, s2) \<Rightarrow>
               (case request_posthook E resp s2 of
                  (Inl e, s3) \<Rightarrow> (Inl e, s3)
                | (Inr resp', s3) \<Rightarrow> (Inr (resp', kw'), s3))))"

text \<open>Lines 323-382, the body of the outer \<^verbatim>\<open>try\<close>.\<close>

definition request_try ::
  "env \<Rightarrow> string \<Rightarrow> string \<Rightarrow> string list \<Rightarrow> kwargs \<Rightarrow> response action" where
  "request_try E method url args kw s =
     (case request_response E method url args kw s of
        (Inl e, s1) \<Rightarrow> (Inl e, s1)
      | (Inr (resp, kw'), s1) \<Rightarrow> request_challenges E resp kw' s1)"

text \<open>Lines 384-387, the \<^verbatim>\<open>finally\<close> clause.\<close>

definition request_finally :: "session \<Rightarrow> session" where
  "request_finally s =
     (if 0 < current_concurrent_requests s
      then s\<lparr>current_concurrent_requests := current_concurrent_requests s - 1\<rparr>
      else s)"

text \<open>
  Lines 309-321, between the throttle and the \<^verbatim>\<open>try\<close>: proxies, stealth, and the two
  counters. An exception of the stealth policy is raised here, before the counters move.
\<close>

definition request_prepare :: "env \<Rightarrow> string \<Rightarrow> string \<Rightarrow> kwargs \<Rightarrow> kwargs action" where
  "request_prepare E method url kw s =
     (case request_proxies E kw s of
        (kw1, s1) \<Rightarrow>
          (case request_stealth E method url kw1 s1 of
             (Inl e, s2) \<Rightarrow> (Inl e, s2)
           | (Inr kw2, s2) \<Rightarrow> (Inr kw2, request_track s2)))"

text \<open>
  Lines 309-387: all of \<^verbatim>\<open>request\<close> after the throttle. The \<^verbatim>\<open>finally\<close> clause runs
  on every way out of the \<^verbatim>\<open>try\<close>, and on none before it.
\<close>

definition request_unthrottled ::
  "env \<Rightarrow> string \<Rightarrow> string \<Rightarrow> string list \<Rightarrow> kwargs \<Rightarrow> response action" where
  "request_unthrottled E method url args kw s =
     (case request_prepare E method url kw s of
        (Inl e, s1) \<Rightarrow> (Inl e, s1)
      | (Inr kw1, s1) \<Rightarrow>
          (case request_try E method url args kw1 s1 of
             (r, s2) \<Rightarrow> (r, request_finally s2)))"

text \<open>
  Lines 300-307: the flag \<^verbatim>\<open>_skip_throttle\<close> is popped from the keyword arguments, the
  call is nested when a request is in flight, and the throttle runs for a call that
  neither skips it nor is nested.
\<close>

definition request_throttle :: "kwargs \<Rightarrow> session \<Rightarrow> session option" where
  "request_throttle kw s =
     (let skip_throttle = (case kw_skip_throttle kw of Some b \<Rightarrow> b | None \<Rightarrow> False);
          is_nested = (0 < current_concurrent_requests s)
      in if \<not> skip_throttle \<and> \<not> is_nested then apply_request_throttling s else Some s)"

text \<open>\<^verbatim>\<open>request\<close>; \<open>None\<close> when the throttle does not return.\<close>

definition request ::
  "env \<Rightarrow> string \<Rightarrow> string \<Rightarrow> string list \<Rightarrow> kwargs \<Rightarrow> session \<Rightarrow>
     ((exn + response) \<times> session) option" where
  "request E method url args kw s =
     (case request_throttle kw s of
        None \<Rightarrow> None
      | Some s1 \<Rightarrow> Some (request_unthrottled E method url args (kw\<lparr>kw_skip_throttle := None\<rparr>) s1))"

subsection \<open>\<^verbatim>\<open>CloudScraper.__init__\<close> (lines 124-235)\<close>

text \<open>
  The keyword arguments of the constructor that set the modelled attributes (\<open>None\<close>
  when the caller leaves one out), and what the constructor reads of the world: the
  time, \<^verbatim>\<open>sys.tracebacklimit\<close>, and whether \<^verbatim>\<open>brotli\<close> is among \<^verbatim>\<open>sys.modules\<close>.
\<close>

record config =
  cfg_debug :: "bool option"
  cfg_disableCloudflareV1 :: "bool option"
  cfg_disableCloudflareV2 :: "bool option"
  cfg_disableCloudflareV3 :: "bool option"
  cfg_disableTurnstile :: "bool option"
  cfg_allow_brotli :: "bool option"
  cfg_solveDepth :: "int option"
  cfg_min_request_interval :: "real option"
  cfg_max_concurrent_requests :: "int option"
  cfg_rotating_proxies :: "string list option"
  cfg_enable_stealth :: "bool option"
  cfg_source_address :: "py_value option"

record world =
  w_time :: real
  w_tracebacklimit :: "int option"
  w_brotli_loaded :: bool

text \<open>\<^verbatim>\<open>kwargs.pop(key, default)\<close>.\<close>

definition kwargs_pop :: "'a option \<Rightarrow> 'a \<Rightarrow> 'a" where
  "kwargs_pop v dflt = (case v of None \<Rightarrow> dflt | Some x \<Rightarrow> x)"

text \<open>
  The constructor sets the attributes with their defaults and mounts the
  \<^verbatim>\<open>CipherSuiteAdapter\<close> (lines 217-226), whose \<^verbatim>\<open>TypeError\<close> ends the construction.
  The session of \<^verbatim>\<open>requests\<close> starts with no proxies and an empty cookie jar.
\<close>

definition CloudScraper_init :: "config \<Rightarrow> world \<Rightarrow> exn + session" where
  "CloudScraper_init cfg w =
     (case CipherSuiteAdapter_source_address (kwargs_pop (cfg_source_address cfg) PyNone) of
        Inl e \<Rightarrow> Inl e
      | Inr sa \<Rightarrow>
          Inr \<lparr>debug = kwargs_pop (cfg_debug cfg) False,
               disableCloudflareV1 = kwargs_pop (cfg_disableCloudflareV1 cfg) False,
               disableCloudflareV2 = kwargs_pop (cfg_disableCloudflareV2 cfg) False,
               disableCloudflareV3 = kwargs_pop (cfg_disableCloudflareV3 cfg) False,
               disableTurnstile = kwargs_pop (cfg_disableTurnstile cfg) False,
               allow_brotli = kwargs_pop (cfg_allow_brotli cfg) (w_brotli_loaded w),
               solveDepthCnt = 0,
               solveDepth = kwargs_pop (cfg_solveDepth cfg) 3,
               request_count = 0,
               retry_count_403 = 0,
               in_403_retry = False,
               last_request_time = 0,
               min_request_interval = kwargs_pop (cfg_min_request_interval cfg) 1,
               max_concurrent_requests = kwargs_pop (cfg_max_concurrent_requests cfg) 1,
               current_concurrent_requests = 0,
               proxy_manager =
                 Some \<lparr>pm_proxies = kwargs_pop (cfg_rotating_proxies cfg) [], pm_history = []\<rparr>,
               enable_stealth = kwargs_pop (cfg_enable_stealth cfg) True,
               proxies = [],
               cookies = [],
               clock = w_time w,
               tracebacklimit = w_tracebacklimit w\<rparr>)"

subsection \<open>What the collaborators leave alone\<close>

text \<open>
  The hooks, the dispatch and the solvers receive the whole session, so what a call of
  \<^verbatim>\<open>request\<close> does to a counter depends on what they do to it. \<open>preserved_by R f\<close>: the
  action \<open>f\<close> takes every state to one that \<open>R\<close> relates to it.
\<close>

definition preserved_by :: "(session \<Rightarrow> session \<Rightarrow> bool) \<Rightarrow> 'a action \<Rightarrow> bool" where
  "preserved_by R f \<longleftrightarrow> (\<forall>s. R s (snd (f s)))"

text \<open>The collaborators that run before the response is classified.\<close>

definition hooks_respect :: "(session \<Rightarrow> session \<Rightarrow> bool) \<Rightarrow> env \<Rightarrow> bool" where
  "hooks_respect R E \<longleftrightarrow>
     (\<forall>method url kw. preserved_by R (apply_stealth_techniques E method url kw)) \<and>
     (\<forall>method url args kw. preserved_by R (request_prehook E method url args kw)) \<and>
     (\<forall>method url args kw. preserved_by R (perform_request E method url args kw)) \<and>
     (\<forall>resp. preserved_by R (request_posthook E resp))"

text \<open>The five solvers.\<close>

definition solvers_respect :: "(session \<Rightarrow> session \<Rightarrow> bool) \<Rightarrow> env \<Rightarrow> bool" where
  "solvers_respect R E \<longleftrightarrow>
     (\<forall>resp kw. preserved_by R (handle_Turnstile_Challenge E resp kw)) \<and>
     (\<forall>resp kw. preserved_by R (handle_V3_Challenge E resp kw)) \<and>
     (\<forall>resp kw. preserved_by R (handle_V2_Captcha_Challenge E resp kw)) \<and>
     (\<forall>resp kw. preserved_by R (handle_V2_Challenge E resp kw)) \<and>
     (\<forall>resp kw. preserved_by R (Challenge_Response E resp kw))"

text \<open>The depth counter and its limit are as they were.\<close>

definition same_depth :: "session \<Rightarrow> session \<Rightarrow> bool" where
  "same_depth s s' \<longleftrightarrow> solveDepthCnt s' = solveDepthCnt s \<and> solveDepth s' = solveDepth s"

text \<open>The in-flight counter, when it was not negative, is as it was.\<close>

definition inflight_kept :: "session \<Rightarrow> session \<Rightarrow> bool" where
  "inflight_kept s s' \<longleftrightarrow>
     (0 \<le> current_concurrent_requests s \<longrightarrow>
        current_concurrent_requests s' = current_concurrent_requests s)"

text \<open>The in-flight counter, when it was not negative, is not negative.\<close>

definition inflight_nonneg :: "session \<Rightarrow> session \<Rightarrow> bool" where
  "inflight_nonneg s s' \<longleftrightarrow>
     (0 \<le> current_concurrent_requests s \<longrightarrow> 0 \<le> current_concurrent_requests s')"


subsection \<open>The priority order, in the words of the specification\<close>

text \<open>
  "Classify the response against each enabled challenge variant in a fixed priority
  order: Turnstile, JS-VM (v3), CAPTCHA (v2), legacy JS (v2), legacy redirect (v1). First
  match wins." The variants, the flag that disables each, its classifier and its solver;
  \<open>spec_first_match\<close> is the first variant of the order that is enabled and matches.
\<close>

datatype variant = Turnstile | V3_JS_VM | V2_Captcha | V2_Legacy_JS | V1_Legacy_Redirect

definition spec_priority_order :: "variant list" where
  "spec_priority_order = [Turnstile, V3_JS_VM, V2_Captcha, V2_Legacy_JS, V1_Legacy_Redirect]"

fun variant_enabled :: "session \<Rightarrow> variant \<Rightarrow> bool" where
  "variant_enabled s Turnstile = (\<not> disableTurnstile s)"
| "variant_enabled s V3_JS_VM = (\<not> disableCloudflareV3 s)"
| "variant_enabled s V2_Captcha = (\<not> disableCloudflareV2 s)"
| "variant_enabled s V2_Legacy_JS = (\<not> disableCloudflareV2 s)"
| "variant_enabled s V1_Legacy_Redirect = (\<not> disableCloudflareV1 s)"

fun variant_classifier :: "env \<Rightarrow> variant \<Rightarrow> response \<Rightarrow> bool" where
  "variant_classifier E Turnstile = is_Turnstile_Challenge E"
| "variant_classifier E V3_JS_VM = is_V3_Challenge E"
| "variant_classifier E V2_Captcha = is_V2_Captcha_Challenge E"
| "variant_classifier E V2_Legacy_JS = is_V2_Challenge E"
| "variant_classifier E V1_Legacy_Redirect = is_Challenge_Request E"

fun variant_solver :: "env \<Rightarrow> variant \<Rightarrow> response \<Rightarrow> kwargs \<Rightarrow> response action" where
  "variant_solver E Turnstile = handle_Turnstile_Challenge E"
| "variant_solver E V3_JS_VM = handle_V3_Challenge E"
| "variant_solver E V2_Captcha = handle_V2_Captcha_Challenge E"
| "variant_solver E V2_Legacy_JS = handle_V2_Challenge E"
| "variant_solver E V1_Legacy_Redirect = Challenge_Response E"

definition spec_first_match :: "env \<Rightarrow> session \<Rightarrow> response \<Rightarrow> variant option" where
  "spec_first_match E s resp =
     find (\<lambda>v. variant_enabled s v \<and> variant_classifier E v resp) spec_priority_order"

subsection \<open>A session and collaborators to run the model on\<close>

text \<open>The session that the constructor builds from no arguments at time 1000.\<close>

definition config_default :: config where
  "config_default =
     \<lparr>cfg_debug = None, cfg_disableCloudflareV1 = None, cfg_disableCloudflareV2 = None,
      cfg_disableCloudflareV3 = None, cfg_disableTurnstile = None, cfg_allow_brotli = None,
      cfg_solveDepth = None, cfg_min_request_interval = None,
      cfg_max_concurrent_requests = None, cfg_rotating_proxies = None,
      cfg_enable_stealth = None, cfg_source_address = None\<rparr>"

definition world_1000 :: world where
  "world_1000 = \<lparr>w_time = 1000, w_tracebacklimit = None, w_brotli_loaded = False\<rparr>"

definition session_fresh :: session where
  "session_fresh =
     \<lparr>debug = False, disableCloudflareV1 = False, disableCloudflareV2 = False,
      disableCloudflareV3 = False, disableTurnstile = False, allow_brotli = False,
      solveDepthCnt = 0, solveDepth = 3, request_count = 0, retry_count_403 = 0,
      in_403_retry = False, last_request_time = 0, min_request_interval = 1,
      max_concurrent_requests = 1, current_concurrent_requests = 0,
      proxy_manager = Some \<lparr>pm_proxies = [], pm_history = []\<rparr>,
      enable_stealth = True, proxies = [], cookies = [], clock = 1000,
      tracebacklimit = None\<rparr>"

definition kwargs_none :: kwargs where
  "kwargs_none = \<lparr>kw_skip_throttle = None, kw_proxies = None, kw_others = []\<rparr>"

definition response_ok :: response where
  "response_ok =
     \<lparr>status_code = 200, is_redirect = False, content_encoding = None, content = ''ok''\<rparr>"

definition response_challenge :: response where
  "response_challenge =
     \<lparr>status_code = 503, is_redirect = False, content_encoding = None,
      content = ''challenge''\<rparr>"

text \<open>
  Collaborators that touch nothing: no hooks, a stealth policy that passes the keyword
  arguments on, a dispatch that answers 200, a legacy-redirect classifier that takes a
  503 for a challenge, solvers that hand the response back, a manager that offers its
  first endpoint.
\<close>

definition env_plain :: env where
  "env_plain =
     \<lparr>requestPreHook = None,
      requestPostHook = None,
      perform_request = (\<lambda>method url args kw s. (Inr response_ok, s)),
      urllib3_before_1_25_1 = False,
      brotli_decompress = (\<lambda>c. Inr c),
      get_proxy = (\<lambda>pm. case pm_proxies pm of [] \<Rightarrow> None | p # ps \<Rightarrow> Some [(''https'', p)]),
      apply_stealth_techniques = (\<lambda>method url kw s. (Inr kw, s)),
      is_Turnstile_Challenge = (\<lambda>resp. False),
      is_V3_Challenge = (\<lambda>resp. False),
      is_V2_Captcha_Challenge = (\<lambda>resp. False),
      is_V2_Challenge = (\<lambda>resp. False),
      is_Challenge_Request = (\<lambda>resp. status_code resp = 503),
      handle_Turnstile_Challenge = (\<lambda>resp kw s. (Inr resp, s)),
      handle_V3_Challenge = (\<lambda>resp kw s. (Inr resp, s)),
      handle_V2_Captcha_Challenge = (\<lambda>resp kw s. (Inr resp, s)),
      handle_V2_Challenge = (\<lambda>resp kw s. (Inr resp, s)),
      Challenge_Response = (\<lambda>resp kw s. (Inr resp, s))\<rparr>"

text \<open>A dispatch that answers with a challenge, and one whose connection fails.\<close>

definition env_challenge :: env where
  "env_challenge =
     env_plain\<lparr>perform_request := (\<lambda>method url args kw s. (Inr response_challenge, s))\<rparr>"

definition env_refused :: env where
  "env_refused =
     env_plain\<lparr>perform_request := (\<lambda>method url args kw s. (Inl ConnectionError, s))\<rparr>"

text \<open>
  A dispatch that answers with the number of requests in flight as its status code
  (\<^verbatim>\<open>perform_request\<close> is there to be overridden in a subclass), and a legacy-redirect
  solver that does what the solvers do: it re-enters \<^verbatim>\<open>request\<close> on the same session
  for the retry. The re-entry finds a request in flight, so it is the part of
  \<^verbatim>\<open>request\<close> after the throttle.
\<close>

definition env_probe :: env where
  "env_probe =
     env_plain\<lparr>perform_request :=
       (\<lambda>method url args kw s.
          (Inr (response_ok\<lparr>status_code := current_concurrent_requests s\<rparr>), s))\<rparr>"

definition env_retry :: env where
  "env_retry =
     env_challenge\<lparr>Challenge_Response :=
       (\<lambda>resp kw. request_unthrottled env_probe ''GET'' ''https://example.com/'' [] kw)\<rparr>"


text \<open>Keyword arguments that name a proxy.\<close>

definition kwargs_proxy :: kwargs where
  "kwargs_proxy = kwargs_none\<lparr>kw_proxies := Some [(''https'', ''http://10.0.0.9:8080'')]\<rparr>"

section \<open>The transport adapter's source address\<close>

text \<open>
  C9, as the specification states it, fails: the check of the constructor looks at the
  type only. A triple is a tuple, so it passes, though it is no (address, port) pair;
  and an empty list is false, so the check is never reached.
\<close>

theorem source_address_unrecognized_accepted:
  "CipherSuiteAdapter_source_address (PyTuple [PyStr ''10.0.0.1'', PyInt 0, PyInt 7])
     = Inr (PyTuple [PyStr ''10.0.0.1'', PyInt 0, PyInt 7])
   \<and> CipherSuiteAdapter_source_address (PyList []) = Inr (PyList [])"
  by (simp add: CipherSuiteAdapter_source_address_def)

text \<open>
  C9, amended: the constructor fails with the \<^verbatim>\<open>TypeError\<close> exactly when the source
  address is true and neither a string nor a tuple; a non-empty string is accepted and
  becomes the pair of the string and port 0; every other value (every tuple, of any
  length, and every false value) is accepted as it is.
\<close>

theorem source_address_check:
  "CipherSuiteAdapter_source_address v =
     (if truthy v \<and> \<not> isinstance_str v \<and> \<not> isinstance_tuple v
      then Inl (TypeError source_address_message)
      else if truthy v \<and> isinstance_str v then Inr (PyTuple [v, PyInt 0])
      else Inr v)"
  by (cases v) (simp_all add: CipherSuiteAdapter_source_address_def)

text \<open>
  C9, on an address string, an (address, port) pair, and a list that is neither.
\<close>

theorem source_address_check_witness:
  "CipherSuiteAdapter_source_address (PyStr ''10.0.0.1'')
     = Inr (PyTuple [PyStr ''10.0.0.1'', PyInt 0])
   \<and> CipherSuiteAdapter_source_address (PyTuple [PyStr ''10.0.0.1'', PyInt 8080])
       = Inr (PyTuple [PyStr ''10.0.0.1'', PyInt 8080])
   \<and> CipherSuiteAdapter_source_address (PyList [PyStr ''10.0.0.1'', PyInt 8080])
       = Inl (TypeError source_address_message)"
  using source_address_check [of "PyStr ''10.0.0.1''"]
    source_address_check [of "PyTuple [PyStr ''10.0.0.1'', PyInt 8080]"]
    source_address_check [of "PyList [PyStr ''10.0.0.1'', PyInt 8080]"]
  by simp

section \<open>Clearing the protection cookies\<close>

lemma jar_clear_filter:
  "(case jar_clear d p n jar of Inl e \<Rightarrow> jar | Inr jar' \<Rightarrow> jar')
     = filter (\<lambda>c. \<not> cookie_at d p n c) jar"
  by (induction jar) (auto simp: jar_clear_def list_ex_iff filter_id_conv)

lemma clear_in_domains_filter:
  "clear_in_domains n ds jar =
     filter (\<lambda>c. \<not> (ck_name c = n \<and> ck_path c = ''/'' \<and> ck_domain c \<in> set ds)) jar"
proof (induction ds arbitrary: jar)
  case Nil
  show ?case by simp
next
  case (Cons d ds)
  show ?case
    unfolding clear_in_domains.simps jar_clear_filter Cons.IH
    by (auto simp: cookie_at_def intro: filter_cong)
qed

lemma set_list_domains_from: "set (list_domains_from ds jar) = set ds \<union> ck_domain ` set jar"
  by (induction jar arbitrary: ds) auto

lemma set_list_domains: "set (list_domains jar) = ck_domain ` set jar"
  by (simp add: list_domains_def set_list_domains_from)

lemma clear_names_filter:
  "clear_names ns jar = filter (\<lambda>c. \<not> (ck_name c \<in> set ns \<and> ck_path c = ''/'')) jar"
proof (induction ns arbitrary: jar)
  case Nil
  show ?case by simp
next
  case (Cons n ns)
  show ?case
    unfolding clear_names.simps Cons.IH clear_in_domains_filter set_list_domains
    by (auto intro: filter_cong)
qed

text \<open>
  C8, as the specification states it, fails: a clearance cookie stored under a path
  other than \<^verbatim>\<open>/\<close> is one of the named set, and the refresh leaves it in the jar.
\<close>

theorem clear_cloudflare_cookies_keeps_other_path:
  "cookies (clear_cloudflare_cookies
      (session_fresh\<lparr>cookies :=
         [\<lparr>ck_domain = ''.example.com'', ck_path = ''/app'',
           ck_name = ''cf_clearance'', ck_value = ''token''\<rparr>]\<rparr>))
   = [\<lparr>ck_domain = ''.example.com'', ck_path = ''/app'',
       ck_name = ''cf_clearance'', ck_value = ''token''\<rparr>]"
  by (simp add: clear_cloudflare_cookies_def cf_cookie_names_def list_domains_def
      jar_clear_def cookie_at_def)

text \<open>
  C8, amended: clearing the protection cookies removes, in every domain of the jar,
  exactly the cookies that bear one of the six names and are stored under the path
  \<^verbatim>\<open>/\<close>; every other cookie stays, in its place, and nothing else of the session
  changes.
\<close>

theorem clear_cloudflare_cookies_root_path:
  "clear_cloudflare_cookies s =
     s\<lparr>cookies :=
        filter (\<lambda>c. \<not> (ck_name c \<in> set cf_cookie_names \<and> ck_path c = ''/'')) (cookies s)\<rparr>"
  by (simp add: clear_cloudflare_cookies_def clear_names_filter)

text \<open>
  C8, on a jar of three cookies in two domains: the two protection cookies go, the
  session cookie stays.
\<close>

theorem clear_cloudflare_cookies_root_path_witness:
  "cookies (clear_cloudflare_cookies
      (session_fresh\<lparr>cookies :=
         [\<lparr>ck_domain = ''.example.com'', ck_path = ''/'',
           ck_name = ''cf_clearance'', ck_value = ''token''\<rparr>,
          \<lparr>ck_domain = ''.example.com'', ck_path = ''/'',
           ck_name = ''sessionid'', ck_value = ''abc''\<rparr>,
          \<lparr>ck_domain = ''.example.org'', ck_path = ''/'',
           ck_name = ''__cf_bm'', ck_value = ''bm''\<rparr>]\<rparr>))
   = [\<lparr>ck_domain = ''.example.com'', ck_path = ''/'',
       ck_name = ''sessionid'', ck_value = ''abc''\<rparr>]"
  using clear_cloudflare_cookies_root_path
    [of "session_fresh\<lparr>cookies :=
         [\<lparr>ck_domain = ''.example.com'', ck_path = ''/'',
           ck_name = ''cf_clearance'', ck_value = ''token''\<rparr>,
          \<lparr>ck_domain = ''.example.com'', ck_path = ''/'',
           ck_name = ''sessionid'', ck_value = ''abc''\<rparr>,
          \<lparr>ck_domain = ''.example.org'', ck_path = ''/'',
           ck_name = ''__cf_bm'', ck_value = ''bm''\<rparr>]\<rparr>"]
  by (simp add: cf_cookie_names_def)

section \<open>The throttle\<close>

lemma wait_concurrent_free:
  "current_concurrent_requests s < max_concurrent_requests s \<Longrightarrow> wait_concurrent s = Some s"
  by (subst wait_concurrent.simps) simp

lemma wait_concurrent_Some:
  assumes "wait_concurrent s = Some y"
  shows "current_concurrent_requests s < max_concurrent_requests s \<and> y = s"
proof (rule wait_concurrent.raw_induct
    [where P = "\<lambda>s y. current_concurrent_requests s < max_concurrent_requests s \<and> y = s",
      OF _ assms])
  fix wait :: "session \<Rightarrow> session option" and s' y'
  assume IH: "\<And>s y. wait s = Some y \<Longrightarrow>
      current_concurrent_requests s < max_concurrent_requests s \<and> y = s"
  assume step: "(if max_concurrent_requests s' \<le> current_concurrent_requests s'
      then wait (time_sleep (1 / 10) s') else Some s') = Some y'"
  show "current_concurrent_requests s' < max_concurrent_requests s' \<and> y' = s'"
  proof (cases "max_concurrent_requests s' \<le> current_concurrent_requests s'")
    case True
    with step have "wait (time_sleep (1 / 10) s') = Some y'" by simp
    from IH [OF this] True show ?thesis by (simp add: time_sleep_def)
  next
    case False
    with step show ?thesis by simp
  qed
qed

lemma wait_concurrent_eq:
  "wait_concurrent s =
     (if current_concurrent_requests s < max_concurrent_requests s then Some s else None)"
proof (cases "wait_concurrent s")
  case None
  then show ?thesis using wait_concurrent_free [of s] by auto
next
  case (Some y)
  then show ?thesis using wait_concurrent_Some [of s y] by auto
qed

lemma apply_request_throttling_eq:
  "apply_request_throttling s =
     (if current_concurrent_requests s < max_concurrent_requests s
      then Some (s\<lparr>clock := max (clock s) (last_request_time s + min_request_interval s),
                   last_request_time := max (clock s) (last_request_time s + min_request_interval s)\<rparr>)
      else None)"
  by (auto simp: apply_request_throttling_def wait_concurrent_eq time_sleep_def Let_def max_def)

section \<open>What a call leaves alone\<close>

lemma preserved_byD: "preserved_by R f \<Longrightarrow> f s = (r, s') \<Longrightarrow> R s s'"
  by (metis preserved_by_def snd_conv)

lemma request_throttle_eq:
  "request_throttle kw s =
     (if kw_skip_throttle kw \<noteq> Some True \<and> current_concurrent_requests s \<le> 0
      then apply_request_throttling s else Some s)"
  by (cases "kw_skip_throttle kw") (auto simp: request_throttle_def Let_def)

lemma request_throttle_Some:
  assumes "request_throttle kw s = Some s0"
  shows "s0 = s\<lparr>clock := clock s0, last_request_time := last_request_time s0\<rparr>"
  using assms
  by (auto simp: request_throttle_eq apply_request_throttling_eq split: if_splits)

lemma request_proxies_frame:
  assumes "request_proxies E kw s = (kw1, s1)"
  shows "s1 = s\<lparr>proxy_manager := proxy_manager s1, proxies := proxies s1\<rparr>"
  using assms
  by (auto simp: request_proxies_def request_own_proxies_def split: option.splits if_splits)

lemma proxy_feedback_frame:
  "proxy_feedback f kw s = s\<lparr>proxy_manager := proxy_manager (proxy_feedback f kw s)\<rparr>"
  by (auto simp: proxy_feedback_def split: option.splits)

lemma request_dispatch_frame:
  assumes "request_dispatch E m u a kw s = (r, s')"
  shows "s' = (snd (perform_request E m u a kw s))\<lparr>proxy_manager := proxy_manager s'\<rparr>"
  using assms proxy_feedback_frame
  by (auto simp: request_dispatch_def request_perform_def
      split: prod.splits sum.splits if_splits)

lemma hooks_respect_stealth:
  "hooks_respect R E \<Longrightarrow> apply_stealth_techniques E m u kw s = (r, s') \<Longrightarrow> R s s'"
  unfolding hooks_respect_def by (blast intro: preserved_byD)

lemma hooks_respect_prehook:
  "hooks_respect R E \<Longrightarrow> request_prehook E m u a kw s = (r, s') \<Longrightarrow> R s s'"
  unfolding hooks_respect_def by (blast intro: preserved_byD)

lemma hooks_respect_perform:
  "hooks_respect R E \<Longrightarrow> perform_request E m u a kw s = (r, s') \<Longrightarrow> R s s'"
  unfolding hooks_respect_def by (blast intro: preserved_byD)

lemma hooks_respect_posthook:
  "hooks_respect R E \<Longrightarrow> request_posthook E resp s = (r, s') \<Longrightarrow> R s s'"
  unfolding hooks_respect_def by (blast intro: preserved_byD)

lemma request_response_respects:
  assumes refl: "\<And>s. R s s"
    and trans: "\<And>s s' s''. R s s' \<Longrightarrow> R s' s'' \<Longrightarrow> R s s''"
    and pm: "\<And>s x. R s (s\<lparr>proxy_manager := x\<rparr>)"
    and hooks: "hooks_respect R E"
    and run: "request_response E m u a kw s = (r, s')"
  shows "R s s'"
proof -
  obtain r1 s1 where pre: "request_prehook E m u a kw s = (r1, s1)" by force
  from hooks pre have R1: "R s s1"
    by (rule hooks_respect_prehook)
  show ?thesis
  proof (cases r1)
    case (Inl e)
    with pre run R1 show ?thesis by (simp add: request_response_def)
  next
    case (Inr q)
    obtain m' u' a' kw' where q: "q = (m', u', a', kw')" by (cases q) auto
    obtain r2 s2 where dis: "request_dispatch E m' u' a' kw' s1 = (r2, s2)" by force
    obtain rp sp where per: "perform_request E m' u' a' kw' s1 = (rp, sp)" by force
    from hooks per have "R s1 sp"
      by (rule hooks_respect_perform)
    moreover from request_dispatch_frame [OF dis] per
    have "s2 = sp\<lparr>proxy_manager := proxy_manager s2\<rparr>" by simp
    then have "R sp s2" using pm [of sp "proxy_manager s2"] by simp
    ultimately have R2: "R s s2" using R1 trans by blast
    show ?thesis
    proof (cases r2)
      case (Inl e)
      with pre Inr q dis run R2 show ?thesis by (simp add: request_response_def)
    next
      case (Inr resp)
      obtain r3 s3 where post: "request_posthook E resp s2 = (r3, s3)" by force
      from hooks post have "R s2 s3"
        by (rule hooks_respect_posthook)
      with R2 trans have R3: "R s s3" by blast
      from pre \<open>r1 = Inr q\<close> q dis Inr post run R3 show ?thesis
        by (cases r3) (auto simp: request_response_def)
    qed
  qed
qed

lemma request_prepare_respects:
  assumes refl: "\<And>s. R s s"
    and trans: "\<And>s s' s''. R s s' \<Longrightarrow> R s' s'' \<Longrightarrow> R s s''"
    and pm: "\<And>s x. R s (s\<lparr>proxy_manager := x\<rparr>)"
    and px: "\<And>s x. R s (s\<lparr>proxies := x\<rparr>)"
    and hooks: "hooks_respect R E"
    and run: "request_prepare E m u kw s = (r, s')"
  shows "\<exists>s2. R s s2 \<and> s' = (case r of Inl e \<Rightarrow> s2 | Inr k \<Rightarrow> request_track s2)"
proof -
  obtain kw1 s1 where prox: "request_proxies E kw s = (kw1, s1)" by force
  from request_proxies_frame [OF prox]
  have "s1 = (s\<lparr>proxy_manager := proxy_manager s1\<rparr>)\<lparr>proxies := proxies s1\<rparr>" by simp
  then have R1: "R s s1"
    using trans [OF pm [of s "proxy_manager s1"] px [of "s\<lparr>proxy_manager := proxy_manager s1\<rparr>" "proxies s1"]]
    by simp
  obtain r2 s2 where st: "request_stealth E m u kw1 s1 = (r2, s2)" by force
  have "R s1 s2"
  proof (cases "enable_stealth s1")
    case True
    with st have "apply_stealth_techniques E m u kw1 s1 = (r2, s2)"
      by (simp add: request_stealth_def)
    with hooks show ?thesis by (rule hooks_respect_stealth)
  next
    case False
    with st refl show ?thesis by (auto simp: request_stealth_def)
  qed
  with R1 trans have "R s s2" by blast
  moreover from prox st run have "s' = (case r of Inl e \<Rightarrow> s2 | Inr k \<Rightarrow> request_track s2)"
    by (cases r2) (auto simp: request_prepare_def)
  ultimately show ?thesis by blast
qed

section \<open>Loop protection and the order of the classifiers\<close>

lemma same_depth_refl: "same_depth s s"
  by (simp add: same_depth_def)

lemma same_depth_trans: "same_depth s s' \<Longrightarrow> same_depth s' s'' \<Longrightarrow> same_depth s s''"
  by (simp add: same_depth_def)

lemma request_unfold:
  assumes thr: "request_throttle kw s = Some s0"
    and prep: "request_prepare E method url (kw\<lparr>kw_skip_throttle := None\<rparr>) s0 = (Inr kw1, s1)"
    and resp: "request_response E method url args kw1 s1 = (Inr (resp, kw2), s2)"
  shows "request E method url args kw s =
           Some (case request_challenges E resp kw2 s2 of (r, s3) \<Rightarrow> (r, request_finally s3))"
  using assms by (simp add: request_def request_unthrottled_def request_try_def)

lemma depth_at_check:
  assumes frame: "hooks_respect same_depth E"
    and thr: "request_throttle kw s = Some s0"
    and prep: "request_prepare E method url kw' s0 = (Inr kw1, s1)"
    and resp: "request_response E method url args kw1 s1 = (Inr (resp, kw2), s2)"
  shows "same_depth s s2"
proof -
  from thr have "same_depth s s0"
    by (auto simp: same_depth_def request_throttle_eq apply_request_throttling_eq
        split: if_splits)
  moreover
  have "\<exists>sx. same_depth s0 sx \<and> s1 = (case Inr kw1 :: exn + kwargs of Inl e \<Rightarrow> sx | Inr k \<Rightarrow> request_track sx)"
    by (rule request_prepare_respects [where R = same_depth, OF _ _ _ _ frame prep])
      (auto simp: same_depth_def)
  then have "same_depth s0 s1" by (auto simp: same_depth_def request_track_def)
  moreover
  have "same_depth s1 s2"
    by (rule request_response_respects [where R = same_depth, OF _ _ _ frame resp])
      (auto simp: same_depth_def)
  ultimately show ?thesis by (simp add: same_depth_def)
qed

text \<open>
  C1: on a session whose depth counter has reached the solve-depth limit, a call of
  \<^verbatim>\<open>request\<close> that gets as far as the check (the throttle lets it through, the stealth
  policy returns, and pre-hook, dispatch and post-hook yield a response) raises the
  loop-protection error, with the count tried, and leaves the depth counter at zero.
  The hooks and the dispatch receive the session; they are taken to leave the depth
  counter and its limit alone.
\<close>

theorem loop_protection_resets_depth:
  assumes frame: "hooks_respect same_depth E"
    and depth: "solveDepth s \<le> solveDepthCnt s"
    and thr: "request_throttle kw s = Some s0"
    and prep: "request_prepare E method url (kw\<lparr>kw_skip_throttle := None\<rparr>) s0 = (Inr kw1, s1)"
    and resp: "request_response E method url args kw1 s1 = (Inr (resp, kw2), s2)"
  shows "\<exists>s'. request E method url args kw s = Some (Inl (CloudflareLoopProtection (solveDepthCnt s)), s')
           \<and> solveDepthCnt s' = 0"
proof -
  from depth_at_check [OF frame thr prep resp] depth
  have d: "solveDepth s2 \<le> solveDepthCnt s2" "solveDepthCnt s2 = solveDepthCnt s"
    by (simp_all add: same_depth_def)
  then have "request_challenges E resp kw2 s2 =
      (Inl (CloudflareLoopProtection (solveDepthCnt s)), s2\<lparr>solveDepthCnt := 0, tracebacklimit := Some 0\<rparr>)"
    by (simp add: request_challenges_def simpleException_def)
  with request_unfold [OF thr prep resp] show ?thesis
    by (simp add: request_finally_def)
qed

lemma spec_first_match_None:
  "spec_first_match E s resp = None \<longleftrightarrow>
     (disableTurnstile s \<or> \<not> is_Turnstile_Challenge E resp) \<and>
     (disableCloudflareV3 s \<or> \<not> is_V3_Challenge E resp) \<and>
     (disableCloudflareV2 s \<or> \<not> is_V2_Captcha_Challenge E resp) \<and>
     (disableCloudflareV2 s \<or> \<not> is_V2_Challenge E resp) \<and>
     (disableCloudflareV1 s \<or> \<not> is_Challenge_Request E resp)"
  by (auto simp: spec_first_match_def spec_priority_order_def)

lemma request_challenges_refines:
  assumes "solveDepthCnt s < solveDepth s"
  shows "request_challenges E resp kw s =
     (case spec_first_match E s resp of
        Some v \<Rightarrow> variant_solver E v resp kw (s\<lparr>solveDepthCnt := solveDepthCnt s + 1\<rparr>)
      | None \<Rightarrow> request_passthrough resp s)"
  using assms
  by (simp add: request_challenges_def spec_first_match_def spec_priority_order_def)

text \<open>
  C2, amended: when the response that dispatch and post-hook yield matches no enabled
  challenge variant, is no redirect and has a status other than 429 and 503, the call
  leaves the depth counter at zero, whatever it was; it returns the response when the
  counter was below the limit, and raises the loop-protection error when the counter
  was at the limit or above.
\<close>

theorem passthrough_resets_depth:
  assumes thr: "request_throttle kw s = Some s0"
    and prep: "request_prepare E method url (kw\<lparr>kw_skip_throttle := None\<rparr>) s0 = (Inr kw1, s1)"
    and resp: "request_response E method url args kw1 s1 = (Inr (resp, kw2), s2)"
    and nomatch: "spec_first_match E s2 resp = None"
    and noredirect: "\<not> is_redirect resp"
    and status: "status_code resp \<notin> {429, 503}"
  shows "\<exists>s'. request E method url args kw s =
             Some (if solveDepthCnt s2 < solveDepth s2 then Inr resp
                   else Inl (CloudflareLoopProtection (solveDepthCnt s2)), s')
           \<and> solveDepthCnt s' = 0"
proof (cases "solveDepthCnt s2 < solveDepth s2")
  case True
  from request_challenges_refines [OF True] nomatch noredirect status
  have "request_challenges E resp kw2 s2 = request_passthrough resp s2" by simp
  with request_unfold [OF thr prep resp] True noredirect status show ?thesis
    by (simp add: request_passthrough_def request_finally_def Let_def)
next
  case False
  then have "request_challenges E resp kw2 s2 =
      (Inl (CloudflareLoopProtection (solveDepthCnt s2)), s2\<lparr>solveDepthCnt := 0, tracebacklimit := Some 0\<rparr>)"
    by (simp add: request_challenges_def simpleException_def)
  with request_unfold [OF thr prep resp] False show ?thesis
    by (simp add: request_finally_def)
qed


section \<open>The model on concrete sessions\<close>

lemmas env_defs = env_plain_def env_challenge_def env_refused_def env_probe_def

lemma hooks_respect_untouched:
  assumes "requestPreHook E = None" and "requestPostHook E = None"
    and "\<And>m u kw s. snd (apply_stealth_techniques E m u kw s) = s"
    and "\<And>m u a kw s. snd (perform_request E m u a kw s) = s"
    and "\<And>s. R s s"
  shows "hooks_respect R E"
  using assms
  by (simp add: hooks_respect_def preserved_by_def request_prehook_def request_posthook_def)

lemma plain_prepare:
  assumes "apply_stealth_techniques E = (\<lambda>m u kw s. (Inr kw, s))"
    and "proxy_manager s = Some pm" and "pm_proxies pm = []" and "kw_proxies kw = None"
  shows "request_prepare E m u kw s = (Inr kw, request_track s)"
  using assms
  by (simp add: request_prepare_def request_proxies_def request_own_proxies_def
      request_stealth_def)

lemma plain_response:
  assumes "requestPreHook E = None" and "requestPostHook E = None"
    and "perform_request E = (\<lambda>m u a kw s. (Inr r, s))"
    and "\<not> urllib3_before_1_25_1 E" and "kw_proxies kw = None"
  shows "request_response E m u a kw s = (Inr (r, kw), s)"
  using assms
  by (simp add: request_response_def request_prehook_def request_dispatch_def
      request_perform_def decodeBrotli_def proxy_feedback_def request_posthook_def)

lemma fresh_throttle:
  "request_throttle kwargs_none (session_fresh\<lparr>solveDepthCnt := d\<rparr>) =
     Some (session_fresh\<lparr>solveDepthCnt := d, clock := 1000, last_request_time := 1000\<rparr>)"
  by (simp add: request_throttle_eq apply_request_throttling_eq kwargs_none_def session_fresh_def)

text \<open>
  C1, on a fresh session with the depth counter at its limit 3 and a dispatch that
  answers with a challenge.
\<close>

theorem loop_protection_resets_depth_witness:
  "\<exists>s'. request env_challenge ''GET'' ''https://example.com/'' [] kwargs_none
            (session_fresh\<lparr>solveDepthCnt := 3\<rparr>)
          = Some (Inl (CloudflareLoopProtection 3), s')
        \<and> solveDepthCnt s' = 0"
proof -
  let ?s = "session_fresh\<lparr>solveDepthCnt := 3\<rparr>"
  let ?t = "session_fresh\<lparr>solveDepthCnt := 3, clock := 1000, last_request_time := 1000\<rparr>"
  have frame: "hooks_respect same_depth env_challenge"
    by (rule hooks_respect_untouched) (simp_all add: env_defs same_depth_def)
  have depth: "solveDepth ?s \<le> solveDepthCnt ?s"
    by (simp add: session_fresh_def)
  have thr: "request_throttle kwargs_none ?s = Some ?t"
    by (rule fresh_throttle)
  have prep: "request_prepare env_challenge ''GET'' ''https://example.com/''
      (kwargs_none\<lparr>kw_skip_throttle := None\<rparr>) ?t = (Inr (kwargs_none\<lparr>kw_skip_throttle := None\<rparr>), request_track ?t)"
    by (rule plain_prepare [where pm = "\<lparr>pm_proxies = [], pm_history = []\<rparr>"])
      (simp_all add: env_defs session_fresh_def kwargs_none_def)
  have resp: "request_response env_challenge ''GET'' ''https://example.com/'' []
      (kwargs_none\<lparr>kw_skip_throttle := None\<rparr>) (request_track ?t)
      = (Inr (response_challenge, kwargs_none\<lparr>kw_skip_throttle := None\<rparr>), request_track ?t)"
    by (rule plain_response) (simp_all add: env_defs kwargs_none_def)
  from loop_protection_resets_depth [OF frame depth thr prep resp]
  show ?thesis by (simp add: session_fresh_def)
qed

text \<open>
  C2, on a fresh session with the depth counter at 2 and a dispatch that answers 200.
\<close>

theorem passthrough_resets_depth_witness:
  "\<exists>s'. request env_plain ''GET'' ''https://example.com/'' [] kwargs_none
            (session_fresh\<lparr>solveDepthCnt := 2\<rparr>)
          = Some (Inr response_ok, s')
        \<and> solveDepthCnt s' = 0"
proof -
  let ?s = "session_fresh\<lparr>solveDepthCnt := 2\<rparr>"
  let ?t = "session_fresh\<lparr>solveDepthCnt := 2, clock := 1000, last_request_time := 1000\<rparr>"
  let ?kw = "kwargs_none\<lparr>kw_skip_throttle := None\<rparr>"
  have thr: "request_throttle kwargs_none ?s = Some ?t"
    by (rule fresh_throttle)
  have prep: "request_prepare env_plain ''GET'' ''https://example.com/'' ?kw ?t
      = (Inr ?kw, request_track ?t)"
    by (rule plain_prepare [where pm = "\<lparr>pm_proxies = [], pm_history = []\<rparr>"])
      (simp_all add: env_defs session_fresh_def kwargs_none_def)
  have resp: "request_response env_plain ''GET'' ''https://example.com/'' [] ?kw (request_track ?t)
      = (Inr (response_ok, ?kw), request_track ?t)"
    by (rule plain_response) (simp_all add: env_defs kwargs_none_def)
  have nomatch: "spec_first_match env_plain (request_track ?t) response_ok = None"
    by (simp add: spec_first_match_None env_defs response_ok_def)
  have noredirect: "\<not> is_redirect response_ok"
    and status: "status_code response_ok \<notin> {429, 503}"
    by (simp_all add: response_ok_def)
  from passthrough_resets_depth [OF thr prep resp nomatch noredirect status]
  show ?thesis by (simp add: session_fresh_def request_track_def)
qed


section \<open>The throttle and the top-level call\<close>

text \<open>
  C5: with the in-flight counter not negative, \<^verbatim>\<open>request\<close> runs the throttle exactly
  when the counter is zero at entry and \<^verbatim>\<open>_skip_throttle\<close> is not set to true, and then
  goes on from the state the throttle leaves (or does not return, when the throttle
  does not); a nested call, made with a request in flight, and a call that skips the
  throttle go on from the state they were made in, and return.
\<close>

theorem throttle_iff_top_level:
  assumes "0 \<le> current_concurrent_requests s"
  shows "request E method url args kw s =
     (if current_concurrent_requests s = 0 \<and> kw_skip_throttle kw \<noteq> Some True then
        (case apply_request_throttling s of
           None \<Rightarrow> None
         | Some s0 \<Rightarrow>
             Some (request_unthrottled E method url args (kw\<lparr>kw_skip_throttle := None\<rparr>) s0))
      else Some (request_unthrottled E method url args (kw\<lparr>kw_skip_throttle := None\<rparr>) s))"
  using assms by (auto simp: request_def request_throttle_eq)

lemma plain_unthrottled:
  assumes "proxy_manager s = Some pm" and "pm_proxies pm = []" and "kw_proxies kw = None"
    and "solveDepthCnt s < solveDepth s"
  shows "request_unthrottled env_plain m u a kw s =
     (Inr response_ok, s\<lparr>solveDepthCnt := 0, retry_count_403 := if in_403_retry s then retry_count_403 s else 0,
        request_count := request_count s + 1,
        current_concurrent_requests :=
          (if 0 \<le> current_concurrent_requests s then current_concurrent_requests s
           else current_concurrent_requests s + 1)\<rparr>)"
proof -
  have prep: "request_prepare env_plain m u kw s = (Inr kw, request_track s)"
    using assms by (intro plain_prepare) (simp_all add: env_defs)
  have resp: "request_response env_plain m u a kw (request_track s) = (Inr (response_ok, kw), request_track s)"
    using assms by (intro plain_response) (simp_all add: env_defs)
  have "request_challenges env_plain response_ok kw (request_track s) = request_passthrough response_ok (request_track s)"
    using assms by (simp add: request_challenges_def env_defs request_track_def response_ok_def)
  with prep resp show ?thesis
    by (simp add: request_unthrottled_def request_try_def request_passthrough_def
        request_finally_def request_track_def response_ok_def Let_def)
qed

text \<open>
  C5, 0.4 seconds after the last recorded dispatch: a nested call and a call with
  \<^verbatim>\<open>_skip_throttle\<close> leave the clock and the recorded time as they were; a top-level
  call sleeps the missing 0.6 seconds and records 1001.
\<close>

theorem throttle_iff_top_level_witness:
  "(\<exists>r s'. request env_plain ''GET'' ''https://example.com/'' [] kwargs_none
       (session_fresh\<lparr>last_request_time := 1000, clock := 10004 / 10,
                       current_concurrent_requests := 1\<rparr>) = Some (r, s')
      \<and> clock s' = 10004 / 10 \<and> last_request_time s' = 1000)
   \<and> (\<exists>r s'. request env_plain ''GET'' ''https://example.com/'' []
       (kwargs_none\<lparr>kw_skip_throttle := Some True\<rparr>)
       (session_fresh\<lparr>last_request_time := 1000, clock := 10004 / 10\<rparr>) = Some (r, s')
      \<and> clock s' = 10004 / 10 \<and> last_request_time s' = 1000)
   \<and> (\<exists>r s'. request env_plain ''GET'' ''https://example.com/'' [] kwargs_none
       (session_fresh\<lparr>last_request_time := 1000, clock := 10004 / 10\<rparr>) = Some (r, s')
      \<and> clock s' = 1001 \<and> last_request_time s' = 1001)"
proof -
  let ?n = "session_fresh\<lparr>last_request_time := 1000, clock := 10004 / 10,
                       current_concurrent_requests := 1\<rparr>"
  let ?t = "session_fresh\<lparr>last_request_time := 1000, clock := 10004 / 10\<rparr>"
  have thr: "apply_request_throttling ?t = Some (session_fresh\<lparr>last_request_time := 1001, clock := 1001\<rparr>)"
    by (simp add: apply_request_throttling_eq session_fresh_def)
  have n1: "current_concurrent_requests ?n = 1" and t0: "current_concurrent_requests ?t = 0"
    by (simp_all add: session_fresh_def)
  have k: "kw_skip_throttle kwargs_none \<noteq> Some True"
    by (simp add: kwargs_none_def)
  have nested: "request env_plain ''GET'' ''https://example.com/'' [] kwargs_none ?n =
      Some (request_unthrottled env_plain ''GET'' ''https://example.com/'' []
        (kwargs_none\<lparr>kw_skip_throttle := None\<rparr>) ?n)"
    using throttle_iff_top_level [of ?n env_plain "''GET''" "''https://example.com/''" "[]" kwargs_none]
      n1 by simp
  have skipped: "request env_plain ''GET'' ''https://example.com/'' []
        (kwargs_none\<lparr>kw_skip_throttle := Some True\<rparr>) ?t =
      Some (request_unthrottled env_plain ''GET'' ''https://example.com/'' []
        (kwargs_none\<lparr>kw_skip_throttle := None\<rparr>) ?t)"
    using throttle_iff_top_level [of ?t env_plain "''GET''" "''https://example.com/''" "[]"
        "kwargs_none\<lparr>kw_skip_throttle := Some True\<rparr>"] t0
    by simp
  have top: "request env_plain ''GET'' ''https://example.com/'' [] kwargs_none ?t =
      Some (request_unthrottled env_plain ''GET'' ''https://example.com/'' []
        (kwargs_none\<lparr>kw_skip_throttle := None\<rparr>) (session_fresh\<lparr>last_request_time := 1001, clock := 1001\<rparr>))"
    using throttle_iff_top_level [of ?t env_plain "''GET''" "''https://example.com/''" "[]" kwargs_none]
      t0 k thr by simp
  show ?thesis
    unfolding nested skipped top
    by (simp add: plain_unthrottled [where pm = "\<lparr>pm_proxies = [], pm_history = []\<rparr>"]
        session_fresh_def kwargs_none_def)
qed

section \<open>Feedback to the Proxy Manager\<close>

lemma proxy_feedback_history:
  assumes "proxy_manager s = Some pm"
  shows "proxy_feedback report_failure kw s =
      s\<lparr>proxy_manager := Some (pm\<lparr>pm_history := pm_history pm @
         (if proxies_truthy (kw_proxies kw) then [ReportFailure (the (kw_proxies kw))] else [])\<rparr>)\<rparr>"
    and "proxy_feedback report_success kw s =
      s\<lparr>proxy_manager := Some (pm\<lparr>pm_history := pm_history pm @
         (if proxies_truthy (kw_proxies kw) then [ReportSuccess (the (kw_proxies kw))] else [])\<rparr>)\<rparr>"
  using assms
  by (auto simp: proxy_feedback_def report_failure_def report_success_def
      intro!: session.equality)

lemma request_raises_in_try:
  assumes thr: "request_throttle kw s = Some s0"
    and prep: "request_prepare E method url (kw\<lparr>kw_skip_throttle := None\<rparr>) s0 = (Inr kw1, s1)"
    and hook: "request_prehook E method url args kw1 s1 = (Inr (method', url', args', kw2), s2)"
    and disp: "request_dispatch E method' url' args' kw2 s2 = (Inl e, s3)"
  shows "request E method url args kw s = Some (Inl e, request_finally s3)"
  using assms
  by (simp add: request_def request_unthrottled_def request_try_def request_response_def)

text \<open>
  C7: when \<^verbatim>\<open>perform_request\<close> raises a proxy or connection error, the dispatch step
  of \<^verbatim>\<open>request\<close> raises that error again, and the manager has received one more call,
  \<^verbatim>\<open>report_failure\<close> for the proxies of the keyword arguments, exactly when these are
  true; when it returns a response (and the response decodes), the manager has received
  \<^verbatim>\<open>report_success\<close> for those proxies, exactly when they are true. An error of the
  dispatch step is what \<^verbatim>\<open>request\<close> itself raises, after the \<^verbatim>\<open>finally\<close> clause and
  nothing else: there is no second dispatch.
\<close>

theorem proxy_manager_feedback:
  assumes pm: "proxy_manager s3 = Some pm"
  shows
    "(perform_request E method' url' args' kw2 s2 = (Inl e, s3) \<and> is_proxy_or_connection_error e \<longrightarrow>
        request_dispatch E method' url' args' kw2 s2 =
          (Inl e,
           s3\<lparr>proxy_manager := Some (pm\<lparr>pm_history := pm_history pm @
              (if proxies_truthy (kw_proxies kw2)
               then [ReportFailure (the (kw_proxies kw2))] else [])\<rparr>)\<rparr>))
     \<and> (perform_request E method' url' args' kw2 s2 = (Inr raw, s3) \<and> decodeBrotli E s3 raw = Inr resp \<longrightarrow>
        request_dispatch E method' url' args' kw2 s2 =
          (Inr resp,
           s3\<lparr>proxy_manager := Some (pm\<lparr>pm_history := pm_history pm @
              (if proxies_truthy (kw_proxies kw2)
               then [ReportSuccess (the (kw_proxies kw2))] else [])\<rparr>)\<rparr>))
     \<and> (request_throttle kw s = Some s0
        \<and> request_prepare E method url (kw\<lparr>kw_skip_throttle := None\<rparr>) s0 = (Inr kw1, s1)
        \<and> request_prehook E method url args kw1 s1 = (Inr (method', url', args', kw2), s2)
        \<and> request_dispatch E method' url' args' kw2 s2 = (Inl e', s4) \<longrightarrow>
        request E method url args kw s = Some (Inl e', request_finally s4))"
proof (intro conjI impI)
  assume a: "perform_request E method' url' args' kw2 s2 = (Inl e, s3) \<and> is_proxy_or_connection_error e"
  then have "request_dispatch E method' url' args' kw2 s2 = (Inl e, proxy_feedback report_failure kw2 s3)"
    by (simp add: request_dispatch_def request_perform_def)
  then show "request_dispatch E method' url' args' kw2 s2 =
          (Inl e,
           s3\<lparr>proxy_manager := Some (pm\<lparr>pm_history := pm_history pm @
              (if proxies_truthy (kw_proxies kw2)
               then [ReportFailure (the (kw_proxies kw2))] else [])\<rparr>)\<rparr>)"
    by (simp only: proxy_feedback_history(1) [OF pm])
next
  assume a: "perform_request E method' url' args' kw2 s2 = (Inr raw, s3) \<and> decodeBrotli E s3 raw = Inr resp"
  then have "request_dispatch E method' url' args' kw2 s2 = (Inr resp, proxy_feedback report_success kw2 s3)"
    by (simp add: request_dispatch_def request_perform_def)
  then show "request_dispatch E method' url' args' kw2 s2 =
          (Inr resp,
           s3\<lparr>proxy_manager := Some (pm\<lparr>pm_history := pm_history pm @
              (if proxies_truthy (kw_proxies kw2)
               then [ReportSuccess (the (kw_proxies kw2))] else [])\<rparr>)\<rparr>)"
    by (simp only: proxy_feedback_history(2) [OF pm])
next
  assume a: "request_throttle kw s = Some s0
        \<and> request_prepare E method url (kw\<lparr>kw_skip_throttle := None\<rparr>) s0 = (Inr kw1, s1)
        \<and> request_prehook E method url args kw1 s1 = (Inr (method', url', args', kw2), s2)
        \<and> request_dispatch E method' url' args' kw2 s2 = (Inl e', s4)"
  then show "request E method url args kw s = Some (Inl e', request_finally s4)"
    by (blast intro: request_raises_in_try)
qed

text \<open>
  C7, on a refused connection and on a 200, with a proxy among the keyword arguments
  and without one; and \<^verbatim>\<open>request\<close> as a whole on the refused connection through a
  proxy: the error comes back, one request was counted, none is in flight.
\<close>

theorem proxy_manager_feedback_witness:
  "(\<exists>s'. request_dispatch env_refused ''GET'' ''https://example.com/'' [] kwargs_proxy session_fresh
            = (Inl ConnectionError, s')
        \<and> map_option pm_history (proxy_manager s')
            = Some [ReportFailure [(''https'', ''http://10.0.0.9:8080'')]])
   \<and> (\<exists>s'. request_dispatch env_refused ''GET'' ''https://example.com/'' [] kwargs_none session_fresh
            = (Inl ConnectionError, s')
        \<and> map_option pm_history (proxy_manager s') = Some [])
   \<and> (\<exists>s'. request_dispatch env_plain ''GET'' ''https://example.com/'' [] kwargs_proxy session_fresh
            = (Inr response_ok, s')
        \<and> map_option pm_history (proxy_manager s')
            = Some [ReportSuccess [(''https'', ''http://10.0.0.9:8080'')]])
   \<and> (\<exists>s'. request_dispatch env_plain ''GET'' ''https://example.com/'' [] kwargs_none session_fresh
            = (Inr response_ok, s')
        \<and> map_option pm_history (proxy_manager s') = Some [])
   \<and> (\<exists>s'. request env_refused ''GET'' ''https://example.com/'' [] kwargs_proxy session_fresh
            = Some (Inl ConnectionError, s')
        \<and> map_option pm_history (proxy_manager s')
            = Some [ReportFailure [(''https'', ''http://10.0.0.9:8080'')]]
        \<and> request_count s' = 1 \<and> current_concurrent_requests s' = 0)"
proof -
  let ?t = "session_fresh\<lparr>solveDepthCnt := 0, clock := 1000, last_request_time := 1000\<rparr>"
  let ?p = "[(''https'', ''http://10.0.0.9:8080'')]"
  let ?pm = "\<lparr>pm_proxies = [], pm_history = []\<rparr>"
  let ?kp = "kwargs_proxy\<lparr>kw_skip_throttle := None\<rparr>"
  let ?u = "request_track (?t\<lparr>proxies := ?p\<rparr>)"
  have pm_f: "proxy_manager session_fresh = Some ?pm" and pm_u: "proxy_manager ?u = Some ?pm"
    by (simp_all add: session_fresh_def request_track_def)
  have fail: "perform_request env_refused ''GET'' ''https://example.com/'' [] kw session_fresh
        = (Inl ConnectionError, session_fresh)
      \<and> is_proxy_or_connection_error ConnectionError" for kw
    by (simp add: env_defs)
  have ok: "perform_request env_plain ''GET'' ''https://example.com/'' [] kw session_fresh
        = (Inr response_ok, session_fresh)
      \<and> decodeBrotli env_plain session_fresh response_ok = Inr response_ok" for kw
    by (simp add: env_defs decodeBrotli_def)
  note A = proxy_manager_feedback [OF pm_f, THEN conjunct1, rule_format, OF fail]
  note B = proxy_manager_feedback [OF pm_f, THEN conjunct2, THEN conjunct1, rule_format, OF ok]
  have thr: "request_throttle kwargs_proxy session_fresh = Some ?t"
    by (simp add: request_throttle_eq apply_request_throttling_eq kwargs_proxy_def
        kwargs_none_def session_fresh_def)
  have prep: "request_prepare env_refused ''GET'' ''https://example.com/'' ?kp ?t = (Inr ?kp, ?u)"
    by (simp add: request_prepare_def request_proxies_def request_own_proxies_def
        request_stealth_def env_defs session_fresh_def kwargs_proxy_def kwargs_none_def)
  have hook: "request_prehook env_refused ''GET'' ''https://example.com/'' [] ?kp ?u
      = (Inr (''GET'', ''https://example.com/'', [], ?kp), ?u)"
    by (simp add: request_prehook_def env_defs)
  have fail_u: "perform_request env_refused ''GET'' ''https://example.com/'' [] ?kp ?u
        = (Inl ConnectionError, ?u)
      \<and> is_proxy_or_connection_error ConnectionError"
    by (simp add: env_defs)
  note C = proxy_manager_feedback [OF pm_u, THEN conjunct1, rule_format, OF fail_u]
  note D = proxy_manager_feedback [OF pm_u, THEN conjunct2, THEN conjunct2, rule_format,
      OF conjI [OF thr conjI [OF prep conjI [OF hook C]]]]
  show ?thesis
    unfolding A B D
    by (simp add: request_finally_def request_track_def kwargs_proxy_def kwargs_none_def
        session_fresh_def)
qed

section \<open>The in-flight counter\<close>

lemma solvers_respect_variant:
  assumes "solvers_respect R E" and "variant_solver E v resp kw s = (r, s')"
  shows "R s s'"
proof -
  from assms(1) have "preserved_by R (variant_solver E v resp kw)"
    unfolding solvers_respect_def by (cases v) simp_all
  from preserved_byD [OF this assms(2)] show ?thesis .
qed

lemma request_challenges_cases:
  "request_challenges E resp kw s =
     (if solveDepth s \<le> solveDepthCnt s
      then simpleException (CloudflareLoopProtection (solveDepthCnt s)) s
      else case spec_first_match E s resp of
             Some v \<Rightarrow> variant_solver E v resp kw (s\<lparr>solveDepthCnt := solveDepthCnt s + 1\<rparr>)
           | None \<Rightarrow> request_passthrough resp s)"
  using request_challenges_refines [of s E resp kw]
  by (simp add: request_challenges_def)

lemma request_challenges_counter:
  assumes same: "\<forall>s s'. current_concurrent_requests s' = current_concurrent_requests s \<longrightarrow> R s s'"
    and left: "\<forall>s0 s s'. current_concurrent_requests s0 = current_concurrent_requests s \<longrightarrow> R s s' \<longrightarrow> R s0 s'"
    and solvers: "solvers_respect R E"
    and run: "request_challenges E resp kw s = (r, s')"
  shows "R s s'"
proof (cases "solveDepth s \<le> solveDepthCnt s")
  case True
  with run have "s' = s\<lparr>solveDepthCnt := 0, tracebacklimit := Some 0\<rparr>"
    by (simp add: request_challenges_cases simpleException_def)
  with same show ?thesis by simp
next
  case False
  show ?thesis
  proof (cases "spec_first_match E s resp")
    case None
    with False run have "s' = snd (request_passthrough resp s)"
      by (simp add: request_challenges_cases)
    then have "current_concurrent_requests s' = current_concurrent_requests s"
      by (simp add: request_passthrough_def Let_def)
    with same show ?thesis by blast
  next
    case (Some v)
    with False run
    have "variant_solver E v resp kw (s\<lparr>solveDepthCnt := solveDepthCnt s + 1\<rparr>) = (r, s')"
      by (simp add: request_challenges_cases)
    from solvers_respect_variant [OF solvers this]
    have "R (s\<lparr>solveDepthCnt := solveDepthCnt s + 1\<rparr>) s'" .
    moreover have "current_concurrent_requests s
        = current_concurrent_requests (s\<lparr>solveDepthCnt := solveDepthCnt s + 1\<rparr>)"
      by simp
    ultimately show ?thesis using left by blast
  qed
qed

lemma request_try_counter:
  assumes same: "\<forall>s s'. current_concurrent_requests s' = current_concurrent_requests s \<longrightarrow> R s s'"
    and left: "\<forall>s0 s s'. current_concurrent_requests s0 = current_concurrent_requests s \<longrightarrow> R s s' \<longrightarrow> R s0 s'"
    and trans: "\<forall>s s' s''. R s s' \<longrightarrow> R s' s'' \<longrightarrow> R s s''"
    and hooks: "hooks_respect R E"
    and solvers: "solvers_respect R E"
    and run: "request_try E m u a kw s = (r, s')"
  shows "R s s'"
proof -
  obtain q sr where resp: "request_response E m u a kw s = (q, sr)" by force
  have R1: "R s sr"
  proof (rule request_response_respects [where R = R, OF _ _ _ hooks resp])
    show "R s s" for s using same by simp
    show "R s s''" if "R s s'" "R s' s''" for s s' s'' using trans that by blast
    show "R s (s\<lparr>proxy_manager := x\<rparr>)" for s x using same by simp
  qed
  show ?thesis
  proof (cases q)
    case (Inl e)
    with resp run R1 show ?thesis by (simp add: request_try_def)
  next
    case (Inr p)
    obtain resp' kw' where p: "p = (resp', kw')" by (cases p) auto
    with Inr resp run have "request_challenges E resp' kw' sr = (r, s')"
      by (simp add: request_try_def)
    from request_challenges_counter [where R = R, OF same left solvers this] R1 trans
    show ?thesis by blast
  qed
qed

lemma request_unthrottled_counter:
  assumes same: "\<forall>s s'. current_concurrent_requests s' = current_concurrent_requests s \<longrightarrow> R s s'"
    and left: "\<forall>s0 s s'. current_concurrent_requests s0 = current_concurrent_requests s \<longrightarrow> R s s' \<longrightarrow> R s0 s'"
    and trans: "\<forall>s s' s''. R s s' \<longrightarrow> R s' s'' \<longrightarrow> R s s''"
    and hooks: "hooks_respect R E"
    and solvers: "solvers_respect R E"
    and run: "request_unthrottled E m u a kw s = (r, s')"
  shows "(\<exists>e. r = Inl e \<and> R s s')
       \<or> (\<exists>s1 s2 s3. R s s1 \<and> s2 = request_track s1 \<and> R s2 s3 \<and> s' = request_finally s3)"
proof -
  obtain q sp where prep: "request_prepare E m u kw s = (q, sp)" by force
  have "\<exists>s2. R s s2 \<and> sp = (case q of Inl e \<Rightarrow> s2 | Inr k \<Rightarrow> request_track s2)"
  proof (rule request_prepare_respects [where R = R, OF _ _ _ _ hooks prep])
    show "R s s" for s using same by simp
    show "R s s''" if "R s s'" "R s' s''" for s s' s'' using trans that by blast
    show "R s (s\<lparr>proxy_manager := x\<rparr>)" for s x using same by simp
    show "R s (s\<lparr>proxies := x\<rparr>)" for s x using same by simp
  qed
  then obtain s1 where s1: "R s s1" "sp = (case q of Inl e \<Rightarrow> s1 | Inr k \<Rightarrow> request_track s1)"
    by blast
  show ?thesis
  proof (cases q)
    case (Inl e)
    with prep run s1 show ?thesis by (auto simp: request_unthrottled_def)
  next
    case (Inr kw1)
    obtain r3 s3 where tr: "request_try E m u a kw1 sp = (r3, s3)" by force
    from request_try_counter [where R = R, OF same left trans hooks solvers tr]
    have "R sp s3" .
    moreover from Inr prep tr run have "s' = request_finally s3"
      by (simp add: request_unthrottled_def)
    moreover from s1 Inr have "R s s1" "sp = request_track s1" by simp_all
    ultimately show ?thesis by blast
  qed
qed

lemma request_unthrottled_kept:
  assumes hooks: "hooks_respect inflight_kept E"
    and solvers: "solvers_respect inflight_kept E"
    and nonneg: "0 \<le> current_concurrent_requests s"
    and run: "request_unthrottled E m u a kw s = (r, s')"
  shows "current_concurrent_requests s' = current_concurrent_requests s"
proof -
  have "(\<exists>e. r = Inl e \<and> inflight_kept s s')
       \<or> (\<exists>s1 s2 s3. inflight_kept s s1 \<and> s2 = request_track s1 \<and> inflight_kept s2 s3 \<and> s' = request_finally s3)"
    by (rule request_unthrottled_counter [where R = inflight_kept, OF _ _ _ hooks solvers run])
      (auto simp: inflight_kept_def)
  with nonneg show ?thesis
    by (auto simp: inflight_kept_def request_track_def request_finally_def)
qed

lemma request_unthrottled_nonneg:
  assumes hooks: "hooks_respect inflight_nonneg E"
    and solvers: "solvers_respect inflight_nonneg E"
    and nonneg: "0 \<le> current_concurrent_requests s"
    and run: "request_unthrottled E m u a kw s = (r, s')"
  shows "0 \<le> current_concurrent_requests s'"
proof -
  have "(\<exists>e. r = Inl e \<and> inflight_nonneg s s')
       \<or> (\<exists>s1 s2 s3. inflight_nonneg s s1 \<and> s2 = request_track s1 \<and> inflight_nonneg s2 s3 \<and> s' = request_finally s3)"
    by (rule request_unthrottled_counter [where R = inflight_nonneg, OF _ _ _ hooks solvers run])
      (auto simp: inflight_nonneg_def)
  with nonneg show ?thesis
    by (auto simp: inflight_nonneg_def request_track_def request_finally_def)
qed

lemma request_throttle_counters:
  assumes "request_throttle kw s = Some s0"
  shows "current_concurrent_requests s0 = current_concurrent_requests s"
    and "max_concurrent_requests s0 = max_concurrent_requests s"
    and "kw_skip_throttle kw \<noteq> Some True \<and> current_concurrent_requests s \<le> 0
           \<longrightarrow> current_concurrent_requests s < max_concurrent_requests s"
  using assms
  by (auto simp: request_throttle_eq apply_request_throttling_eq split: if_splits)

text \<open>
  C4, amended: a call of \<^verbatim>\<open>request\<close> that the throttle lets through, on a session
  whose in-flight counter is not negative and with collaborators that leave the counter
  as they found it, returns with the counter at its value at entry (zero for a
  top-level call), whichever way it ends; the \<^verbatim>\<open>try\<close> block is entered with the counter
  one higher; and a call that went through the throttle at the top level enters it
  with the counter within \<^verbatim>\<open>max_concurrent_requests\<close>.
\<close>

theorem inflight_counter_balanced:
  assumes hooks: "hooks_respect inflight_kept E"
    and solvers: "solvers_respect inflight_kept E"
    and nonneg: "0 \<le> current_concurrent_requests s"
    and thr: "request_throttle kw s = Some s0"
  shows "(\<exists>r s'. request E method url args kw s = Some (r, s')
            \<and> current_concurrent_requests s' = current_concurrent_requests s)
     \<and> (\<forall>kw1 s1. request_prepare E method url (kw\<lparr>kw_skip_throttle := None\<rparr>) s0 = (Inr kw1, s1)
            \<longrightarrow> current_concurrent_requests s1 = current_concurrent_requests s + 1)
     \<and> (kw_skip_throttle kw \<noteq> Some True \<and> current_concurrent_requests s = 0
            \<longrightarrow> current_concurrent_requests s + 1 \<le> max_concurrent_requests s)"
proof (intro conjI allI impI)
  note c0 = request_throttle_counters(1) [OF thr]
  obtain r s' where run:
    "request_unthrottled E method url args (kw\<lparr>kw_skip_throttle := None\<rparr>) s0 = (r, s')"
    by force
  from nonneg c0 have "0 \<le> current_concurrent_requests s0" by simp
  from request_unthrottled_kept [OF hooks solvers this run] c0
  have "current_concurrent_requests s' = current_concurrent_requests s" by simp
  moreover from thr run have "request E method url args kw s = Some (r, s')"
    by (simp add: request_def)
  ultimately show "\<exists>r s'. request E method url args kw s = Some (r, s')
            \<and> current_concurrent_requests s' = current_concurrent_requests s"
    by blast
next
  fix kw1 s1
  assume prep: "request_prepare E method url (kw\<lparr>kw_skip_throttle := None\<rparr>) s0 = (Inr kw1, s1)"
  have "\<exists>s2. inflight_kept s0 s2
      \<and> s1 = (case Inr kw1 :: exn + kwargs of Inl e \<Rightarrow> s2 | Inr k \<Rightarrow> request_track s2)"
    by (rule request_prepare_respects [where R = inflight_kept, OF _ _ _ _ hooks prep])
      (simp_all add: inflight_kept_def)
  with nonneg request_throttle_counters(1) [OF thr]
  show "current_concurrent_requests s1 = current_concurrent_requests s + 1"
    by (auto simp: inflight_kept_def request_track_def)
next
  assume "kw_skip_throttle kw \<noteq> Some True \<and> current_concurrent_requests s = 0"
  with request_throttle_counters(3) [OF thr]
  show "current_concurrent_requests s + 1 \<le> max_concurrent_requests s" by simp
qed

lemma CloudScraper_init_counter:
  "CloudScraper_init cfg w = Inr s0 \<Longrightarrow> current_concurrent_requests s0 = 0"
  by (auto simp: CloudScraper_init_def split: sum.splits)

text \<open>
  C10: the constructor leaves the in-flight counter at 0; the \<^verbatim>\<open>finally\<close> clause
  decrements it only when it is strictly positive, and then by one, so a counter that
  is not negative stays so; and a call of \<^verbatim>\<open>request\<close> on a session whose counter is not
  negative, with collaborators that keep it so, returns with a counter that is not
  negative.
\<close>

theorem inflight_counter_never_negative:
  "(CloudScraper_init cfg w = Inr s0 \<longrightarrow> current_concurrent_requests s0 = 0)
   \<and> (0 \<le> current_concurrent_requests s \<longrightarrow> 0 \<le> current_concurrent_requests (request_finally s))
   \<and> (current_concurrent_requests (request_finally s) \<noteq> current_concurrent_requests s \<longrightarrow>
        0 < current_concurrent_requests s
        \<and> current_concurrent_requests (request_finally s) = current_concurrent_requests s - 1)
   \<and> (hooks_respect inflight_nonneg E \<and> solvers_respect inflight_nonneg E
        \<and> 0 \<le> current_concurrent_requests s
        \<and> request E method url args kw s = Some (r, s')
        \<longrightarrow> 0 \<le> current_concurrent_requests s')"
proof (intro conjI impI)
  assume "CloudScraper_init cfg w = Inr s0"
  then show "current_concurrent_requests s0 = 0" by (rule CloudScraper_init_counter)
next
  assume "0 \<le> current_concurrent_requests s"
  then show "0 \<le> current_concurrent_requests (request_finally s)"
    by (simp add: request_finally_def)
next
  assume "current_concurrent_requests (request_finally s) \<noteq> current_concurrent_requests s"
  then show "0 < current_concurrent_requests s"
    and "current_concurrent_requests (request_finally s) = current_concurrent_requests s - 1"
    by (simp_all add: request_finally_def split: if_splits)
next
  assume a: "hooks_respect inflight_nonneg E \<and> solvers_respect inflight_nonneg E
        \<and> 0 \<le> current_concurrent_requests s
        \<and> request E method url args kw s = Some (r, s')"
  then obtain s1 where thr: "request_throttle kw s = Some s1"
    and run: "request_unthrottled E method url args (kw\<lparr>kw_skip_throttle := None\<rparr>) s1 = (r, s')"
    by (auto simp: request_def split: option.splits)
  from a request_throttle_counters(1) [OF thr] have "0 \<le> current_concurrent_requests s1"
    by simp
  from request_unthrottled_nonneg [OF _ _ this run] a
  show "0 \<le> current_concurrent_requests s'" by blast
qed

lemma solvers_respect_untouched:
  assumes "\<And>resp kw s. snd (handle_Turnstile_Challenge E resp kw s) = s"
    and "\<And>resp kw s. snd (handle_V3_Challenge E resp kw s) = s"
    and "\<And>resp kw s. snd (handle_V2_Captcha_Challenge E resp kw s) = s"
    and "\<And>resp kw s. snd (handle_V2_Challenge E resp kw s) = s"
    and "\<And>resp kw. preserved_by R (Challenge_Response E resp kw)"
    and "\<And>s. R s s"
  shows "solvers_respect R E"
  using assms by (simp add: solvers_respect_def preserved_by_def)

lemma env_probe_kept:
  "hooks_respect inflight_kept env_probe" "solvers_respect inflight_kept env_probe"
  by (rule hooks_respect_untouched solvers_respect_untouched;
      simp add: env_defs inflight_kept_def preserved_by_def)+

lemma env_probe_nonneg:
  "hooks_respect inflight_nonneg env_probe" "solvers_respect inflight_nonneg env_probe"
  by (rule hooks_respect_untouched solvers_respect_untouched;
      simp add: env_defs inflight_nonneg_def preserved_by_def)+

lemma env_retry_kept:
  "hooks_respect inflight_kept env_retry" "solvers_respect inflight_kept env_retry"
proof -
  show "hooks_respect inflight_kept env_retry"
    by (rule hooks_respect_untouched) (simp_all add: env_retry_def env_defs inflight_kept_def)
  have "preserved_by inflight_kept (Challenge_Response env_retry resp kw)" for resp kw
    unfolding preserved_by_def inflight_kept_def
  proof (intro allI impI)
    fix s :: session
    assume nonneg: "0 \<le> current_concurrent_requests s"
    obtain r s' where run:
      "request_unthrottled env_probe ''GET'' ''https://example.com/'' [] kw s = (r, s')"
      by force
    from request_unthrottled_kept [OF env_probe_kept nonneg run] run
    show "current_concurrent_requests (snd (Challenge_Response env_retry resp kw s))
        = current_concurrent_requests s"
      by (simp add: env_retry_def)
  qed
  then show "solvers_respect inflight_kept env_retry"
    by (intro solvers_respect_untouched) (simp_all add: env_retry_def env_defs inflight_kept_def)
qed

lemma env_retry_nonneg:
  "hooks_respect inflight_nonneg env_retry" "solvers_respect inflight_nonneg env_retry"
proof -
  show "hooks_respect inflight_nonneg env_retry"
    by (rule hooks_respect_untouched) (simp_all add: env_retry_def env_defs inflight_nonneg_def)
  have "preserved_by inflight_nonneg (Challenge_Response env_retry resp kw)" for resp kw
    unfolding preserved_by_def inflight_nonneg_def
  proof (intro allI impI)
    fix s :: session
    assume nonneg: "0 \<le> current_concurrent_requests s"
    obtain r s' where run:
      "request_unthrottled env_probe ''GET'' ''https://example.com/'' [] kw s = (r, s')"
      by force
    from request_unthrottled_nonneg [OF env_probe_nonneg nonneg run] run
    show "0 \<le> current_concurrent_requests (snd (Challenge_Response env_retry resp kw s))"
      by (simp add: env_retry_def)
  qed
  then show "solvers_respect inflight_nonneg env_retry"
    by (intro solvers_respect_untouched) (simp_all add: env_retry_def env_defs inflight_nonneg_def)
qed

lemma fresh_throttle_0:
  "request_throttle kwargs_none session_fresh =
     Some (session_fresh\<lparr>solveDepthCnt := 0, clock := 1000, last_request_time := 1000\<rparr>)"
  using fresh_throttle [of 0] by (simp add: session_fresh_def)

text \<open>
  C4, on a fresh session whose first response is a challenge and whose solver
  re-enters \<^verbatim>\<open>request\<close>: the call returns with no request in flight.
\<close>

theorem inflight_counter_balanced_witness:
  "(\<exists>r s'. request env_retry ''GET'' ''https://example.com/'' [] kwargs_none session_fresh
        = Some (r, s')
      \<and> current_concurrent_requests s' = 0)
   \<and> 1 \<le> max_concurrent_requests session_fresh"
proof -
  have nonneg: "0 \<le> current_concurrent_requests session_fresh"
    and zero: "current_concurrent_requests session_fresh = 0"
    by (simp_all add: session_fresh_def)
  have k: "kw_skip_throttle kwargs_none \<noteq> Some True"
    by (simp add: kwargs_none_def)
  from inflight_counter_balanced [OF env_retry_kept nonneg fresh_throttle_0,
      of "''GET''" "''https://example.com/''" "[]"] zero k
  show ?thesis by simp
qed

text \<open>
  C10, on the session the constructor builds from no arguments, and the call whose
  solver re-enters \<^verbatim>\<open>request\<close>.
\<close>

theorem inflight_counter_never_negative_witness:
  "CloudScraper_init config_default world_1000 = Inr session_fresh
   \<and> current_concurrent_requests session_fresh = 0
   \<and> (\<exists>r s'. request env_retry ''GET'' ''https://example.com/'' [] kwargs_none session_fresh
        = Some (r, s')
      \<and> 0 \<le> current_concurrent_requests s')"
proof -
  have init: "CloudScraper_init config_default world_1000 = Inr session_fresh"
    by (simp add: CloudScraper_init_def config_default_def world_1000_def session_fresh_def
        kwargs_pop_def CipherSuiteAdapter_source_address_def)
  obtain r s' where run:
    "request env_retry ''GET'' ''https://example.com/'' [] kwargs_none session_fresh = Some (r, s')"
    by (auto simp: request_def fresh_throttle_0 intro: prod.exhaust)
  have nonneg: "0 \<le> current_concurrent_requests session_fresh"
    by (simp add: session_fresh_def)
  note T = inflight_counter_never_negative
    [of config_default world_1000 session_fresh session_fresh env_retry
      "''GET''" "''https://example.com/''" "[]" kwargs_none r s']
  from T init have "current_concurrent_requests session_fresh = 0" by blast
  moreover from T env_retry_nonneg nonneg run have "0 \<le> current_concurrent_requests s'" by blast
  ultimately show ?thesis using init run by blast
qed

lemma probe_unthrottled:
  assumes "proxy_manager s = Some pm" and "pm_proxies pm = []" and "kw_proxies kw = None"
    and "solveDepthCnt s < solveDepth s"
    and "current_concurrent_requests s + 1 \<notin> {429, 503}"
  shows "fst (request_unthrottled env_probe m u a kw s) =
     Inr (response_ok\<lparr>status_code := current_concurrent_requests s + 1\<rparr>)"
proof -
  let ?r = "response_ok\<lparr>status_code := current_concurrent_requests s + 1\<rparr>"
  have prep: "request_prepare env_probe m u kw s = (Inr kw, request_track s)"
    using assms by (intro plain_prepare) (simp_all add: env_defs)
  have resp: "request_response env_probe m u a kw (request_track s) = (Inr (?r, kw), request_track s)"
    using assms
    by (simp add: request_response_def request_prehook_def request_dispatch_def
        request_perform_def decodeBrotli_def proxy_feedback_def request_posthook_def
        env_defs request_track_def)
  have "request_challenges env_probe ?r kw (request_track s) = request_passthrough ?r (request_track s)"
    using assms by (simp add: request_challenges_def env_defs request_track_def)
  with prep resp show ?thesis
    by (simp add: request_unthrottled_def request_try_def request_passthrough_def
        split: prod.splits)
qed

text \<open>
  C4, as the specification states it, fails: the in-flight counter exceeds
  \<^verbatim>\<open>max_concurrent_requests\<close>. On a fresh session, with the ceiling at 1, the first
  response is a challenge; the solver re-enters \<^verbatim>\<open>request\<close>, which is nested and so
  not throttled, and counts itself: the dispatch of the retry runs with 2 requests in
  flight, which it reports as its status code.
\<close>

theorem inflight_counter_exceeds_ceiling:
  "max_concurrent_requests session_fresh = 1
   \<and> (\<exists>s'. request env_retry ''GET'' ''https://example.com/'' [] kwargs_none session_fresh
          = Some (Inr (response_ok\<lparr>status_code := 2\<rparr>), s'))"
proof -
  let ?t = "session_fresh\<lparr>solveDepthCnt := 0, clock := 1000, last_request_time := 1000\<rparr>"
  let ?kw = "kwargs_none\<lparr>kw_skip_throttle := None\<rparr>"
  let ?u = "(request_track ?t)\<lparr>solveDepthCnt := 1\<rparr>"
  have prep: "request_prepare env_retry ''GET'' ''https://example.com/'' ?kw ?t
      = (Inr ?kw, request_track ?t)"
    by (rule plain_prepare [where pm = "\<lparr>pm_proxies = [], pm_history = []\<rparr>"])
      (simp_all add: env_retry_def env_defs session_fresh_def kwargs_none_def)
  have resp: "request_response env_retry ''GET'' ''https://example.com/'' [] ?kw (request_track ?t)
      = (Inr (response_challenge, ?kw), request_track ?t)"
    by (rule plain_response) (simp_all add: env_retry_def env_defs kwargs_none_def)
  have chall: "request_challenges env_retry response_challenge ?kw (request_track ?t)
      = request_unthrottled env_probe ''GET'' ''https://example.com/'' [] ?kw ?u"
    by (simp add: request_challenges_def env_retry_def env_defs response_challenge_def
        request_track_def session_fresh_def)
  have "fst (request_unthrottled env_probe ''GET'' ''https://example.com/'' [] ?kw ?u)
      = Inr (response_ok\<lparr>status_code := current_concurrent_requests ?u + 1\<rparr>)"
    by (rule probe_unthrottled [where pm = "\<lparr>pm_proxies = [], pm_history = []\<rparr>"])
      (simp_all add: request_track_def session_fresh_def kwargs_none_def)
  then have nested: "fst (request_unthrottled env_probe ''GET'' ''https://example.com/'' [] ?kw ?u)
      = Inr (response_ok\<lparr>status_code := 2\<rparr>)"
    by (simp add: request_track_def session_fresh_def)
  from request_unfold [OF fresh_throttle_0 prep resp] chall nested
  have "\<exists>s'. request env_retry ''GET'' ''https://example.com/'' [] kwargs_none session_fresh
          = Some (Inr (response_ok\<lparr>status_code := 2\<rparr>), s')"
    by (simp only: split_beta) metis
  then show ?thesis by (simp add: session_fresh_def)
qed

section \<open>A response that passes through at the depth limit\<close>

lemmas request_phase_defs =
  request_unthrottled_def request_prepare_def request_proxies_def request_own_proxies_def
  request_stealth_def request_track_def request_try_def request_response_def
  request_prehook_def request_dispatch_def request_perform_def decodeBrotli_def
  proxy_feedback_def request_posthook_def request_challenges_def request_passthrough_def
  request_finally_def simpleException_def

text \<open>
  C2, as the specification states it, fails: with the depth counter at the limit 3, a
  200 that matches no challenge variant and is no redirect is not returned to the
  caller; the call raises the loop-protection error (and leaves the counter at zero).
\<close>

theorem passthrough_at_limit_raises:
  "spec_first_match env_plain (session_fresh\<lparr>solveDepthCnt := 3\<rparr>) response_ok = None
   \<and> \<not> is_redirect response_ok
   \<and> status_code response_ok = 200
   \<and> (\<exists>s'. request env_plain ''GET'' ''https://example.com/'' [] kwargs_none
              (session_fresh\<lparr>solveDepthCnt := 3\<rparr>)
            = Some (Inl (CloudflareLoopProtection 3), s')
          \<and> solveDepthCnt s' = 0)"
  by (simp add: spec_first_match_None request_def request_throttle_eq
      apply_request_throttling_eq request_phase_defs env_defs
      session_fresh_def kwargs_none_def response_ok_def)

section \<open>The interval between dispatches\<close>







end
